theory Spec2Isabelle
  imports Main "HOL-Library.Sublist" "HOL-Library.AList"
begin

section \<open>Key utilities (src/utils.ts)\<close>

text \<open>
  Keys are JavaScript strings, modelled as lists of characters: \<open>length\<close> is the
  string's \<open>length\<close>, \<open>prefix b k\<close> is \<open>k.startsWith(b)\<close>, \<open>drop n k\<close> is
  \<open>k.slice(n)\<close>.

  \<open>normalizeKey\<close> is a chain of four string operations. \<open>split_query\<close> is
  \<open>key.split("?")[0]\<close>; \<open>replace_separators\<close> is the first \<open>replace\<close>, whose
  character class holds the two separators its comment names (slash and backslash):
  every slash and backslash becomes a colon; \<open>collapse_colons\<close> is
  \<open>replace(/:+/g, ":")\<close>; \<open>trim_colons\<close> is \<open>replace(/^:|:$/g, "")\<close>, which drops
  one colon at the start and one colon at the end. An \<open>undefined\<close> key gives the
  empty key, like the empty string.
\<close>

definition split_query :: "string \<Rightarrow> string" where
  "split_query key = takeWhile (\<lambda>c. c \<noteq> CHR ''?'') key"

definition replace_separators :: "string \<Rightarrow> string" where
  "replace_separators key =
     map (\<lambda>c. if c = CHR ''/'' \<or> c = CHR 0x5C then CHR '':'' else c) key"

fun collapse_colons :: "string \<Rightarrow> string" where
  "collapse_colons [] = []"
| "collapse_colons [c] = [c]"
| "collapse_colons (a # b # cs) =
     (if a = CHR '':'' \<and> b = CHR '':'' then collapse_colons (b # cs)
      else a # collapse_colons (b # cs))"

definition trim_leading_colon :: "string \<Rightarrow> string" where
  "trim_leading_colon key =
     (case key of [] \<Rightarrow> [] | c # cs \<Rightarrow> if c = CHR '':'' then cs else c # cs)"

definition trim_trailing_colon :: "string \<Rightarrow> string" where
  "trim_trailing_colon key =
     (if key \<noteq> [] \<and> last key = CHR '':'' then butlast key else key)"

definition trim_colons :: "string \<Rightarrow> string" where
  "trim_colons key = trim_trailing_colon (trim_leading_colon key)"

definition normalizeKey :: "string \<Rightarrow> string" where
  "normalizeKey key =
     (if key = [] then []
      else trim_colons (collapse_colons (replace_separators (split_query key))))"

fun join_colon :: "string list \<Rightarrow> string" where
  "join_colon [] = []"
| "join_colon [k] = k"
| "join_colon (k # ks) = k @ '':'' @ join_colon ks"

definition joinKeys :: "string list \<Rightarrow> string" where
  "joinKeys keys = normalizeKey (join_colon keys)"

definition normalizeBaseKey :: "string \<Rightarrow> string" where
  "normalizeBaseKey base =
     (let b = normalizeKey base in if b \<noteq> [] then b @ '':'' else [])"

fun no_colon_run :: "string \<Rightarrow> bool" where
  "no_colon_run [] = True"
| "no_colon_run [c] = True"
| "no_colon_run (a # b # cs) =
     (\<not> (a = CHR '':'' \<and> b = CHR '':'') \<and> no_colon_run (b # cs))"

text \<open>
  What a normalized key looks like: no query mark, no slash or backslash, no run of
  colons, no colon at either end.
\<close>

definition normalized :: "string \<Rightarrow> bool" where
  "normalized key \<longleftrightarrow>
     CHR ''?'' \<notin> set key \<and> CHR ''/'' \<notin> set key \<and> CHR 0x5C \<notin> set key \<and>
     no_colon_run key \<and> (key = [] \<or> (hd key \<noteq> CHR '':'' \<and> last key \<noteq> CHR '':''))"

text \<open>
  \<open>filterKeyByDepth(key, depth)\<close> counts the colons of the key in a loop over
  \<open>indexOf\<close> and compares the count with \<open>depth\<close>. TypeScript types are erased
  at run time, so the second argument is whatever the caller passes: \<open>js_value\<close>
  holds the values it receives in this repository (\<open>undefined\<close>, a number, or a
  string). \<open>substrCount <= depth\<close> converts a string operand to a number first;
  a comparison with \<open>NaN\<close> is false.
\<close>

datatype js_value = JSUndefined | JSNumber int | JSString string

fun count_colons :: "string \<Rightarrow> nat" where
  "count_colons [] = 0"
| "count_colons (c # cs) = (if c = CHR '':'' then Suc (count_colons cs) else count_colons cs)"

text \<open>
  The conversion of a string to a number (\<open>StringToNumber\<close>): blanks and line
  terminators are trimmed; the empty string is 0; \<open>0x\<close>, \<open>0o\<close> and \<open>0b\<close>
  start an unsigned hexadecimal, octal or binary integer; otherwise an optional sign is
  followed by \<open>Infinity\<close> or by decimal digits with an optional fraction and an
  optional exponent; every other string is \<open>NaN\<close>. \<open>Finite m e\<close> is the number
  \<open>m\<close> times ten to the power \<open>e\<close>. Two limits: characters are code units
  below 256, so the blanks are the ASCII ones and the no-break space; and a literal
  stands for its exact value, where JavaScript takes the nearest double.
\<close>

datatype js_number = NaN | Finite int int | Infinite bool

definition is_js_space :: "char \<Rightarrow> bool" where
  "is_js_space c \<longleftrightarrow> (of_char c :: nat) \<in> {9, 10, 11, 12, 13, 32, 160}"

definition js_trim :: "string \<Rightarrow> string" where
  "js_trim s = rev (dropWhile is_js_space (rev (dropWhile is_js_space s)))"

definition is_decimal_digit :: "char \<Rightarrow> bool" where
  "is_decimal_digit c \<longleftrightarrow> 48 \<le> (of_char c :: nat) \<and> (of_char c :: nat) \<le> 57"

definition digit_value :: "char \<Rightarrow> nat option" where
  "digit_value c =
     (let n = (of_char c :: nat) in
      if 48 \<le> n \<and> n \<le> 57 then Some (n - 48)
      else if 97 \<le> n \<and> n \<le> 102 then Some (n - 87)
      else if 65 \<le> n \<and> n \<le> 70 then Some (n - 55)
      else None)"

fun radix_value :: "nat \<Rightarrow> nat \<Rightarrow> string \<Rightarrow> nat option" where
  "radix_value radix acc [] = Some acc"
| "radix_value radix acc (c # cs) =
     (case digit_value c of
        None \<Rightarrow> None
      | Some d \<Rightarrow> if d < radix then radix_value radix (radix * acc + d) cs else None)"

definition exponent_digits :: "int \<Rightarrow> string \<Rightarrow> int option" where
  "exponent_digits sign ds =
     (if ds = [] then None
      else (case radix_value 10 0 ds of None \<Rightarrow> None | Some v \<Rightarrow> Some (sign * int v)))"

definition parse_exponent :: "string \<Rightarrow> int option" where
  "parse_exponent s =
     (case s of
        [] \<Rightarrow> Some 0
      | c # t \<Rightarrow>
          if c = CHR ''e'' \<or> c = CHR ''E'' then
            (case t of
               [] \<Rightarrow> None
             | sg # u \<Rightarrow>
                 if sg = CHR ''+'' then exponent_digits 1 u
                 else if sg = CHR ''-'' then exponent_digits (- 1) u
                 else exponent_digits 1 t)
          else None)"

definition parse_unsigned_decimal :: "string \<Rightarrow> js_number" where
  "parse_unsigned_decimal s =
     (if s = ''Infinity'' then Infinite True
      else
        (let ip = takeWhile is_decimal_digit s;
             r1 = dropWhile is_decimal_digit s;
             has_dot = (r1 \<noteq> [] \<and> hd r1 = CHR ''.'');
             fp = (if has_dot then takeWhile is_decimal_digit (tl r1) else []);
             r2 = (if has_dot then dropWhile is_decimal_digit (tl r1) else r1)
         in if ip = [] \<and> fp = [] then NaN
            else (case parse_exponent r2 of
                    None \<Rightarrow> NaN
                  | Some e \<Rightarrow>
                      (case radix_value 10 0 (ip @ fp) of
                         None \<Rightarrow> NaN
                       | Some m \<Rightarrow> Finite (int m) (e - int (length fp))))))"

fun negate :: "js_number \<Rightarrow> js_number" where
  "negate NaN = NaN"
| "negate (Finite m e) = Finite (- m) e"
| "negate (Infinite positive) = Infinite (\<not> positive)"

definition nondecimal_radix :: "string \<Rightarrow> nat option" where
  "nondecimal_radix s =
     (case s of
        c # x # ds \<Rightarrow>
          if c \<noteq> CHR ''0'' then None
          else if x = CHR ''x'' \<or> x = CHR ''X'' then Some 16
          else if x = CHR ''o'' \<or> x = CHR ''O'' then Some 8
          else if x = CHR ''b'' \<or> x = CHR ''B'' then Some 2
          else None
      | _ \<Rightarrow> None)"

definition string_to_number :: "string \<Rightarrow> js_number" where
  "string_to_number s =
     (let t = js_trim s in
      case nondecimal_radix t of
        Some radix \<Rightarrow>
          (if drop 2 t = [] then NaN
           else (case radix_value radix 0 (drop 2 t) of
                   None \<Rightarrow> NaN
                 | Some v \<Rightarrow> Finite (int v) 0))
      | None \<Rightarrow>
          (case t of
             [] \<Rightarrow> Finite 0 0
           | c # rest \<Rightarrow>
               if c = CHR ''+'' then parse_unsigned_decimal rest
               else if c = CHR ''-'' then negate (parse_unsigned_decimal rest)
               else parse_unsigned_decimal t))"

fun js_le :: "nat \<Rightarrow> js_value \<Rightarrow> bool" where
  "js_le n JSUndefined = False"
| "js_le n (JSNumber d) = (int n \<le> d)"
| "js_le n (JSString s) =
     (case string_to_number s of
        NaN \<Rightarrow> False
      | Infinite positive \<Rightarrow> positive
      | Finite m e \<Rightarrow>
          if 0 \<le> e then int n \<le> m * 10 ^ nat e else int n * 10 ^ nat (- e) \<le> m)"

definition filterKeyByDepth :: "string \<Rightarrow> js_value \<Rightarrow> bool" where
  "filterKeyByDepth key depth =
     (if depth = JSUndefined then True else js_le (count_colons key) depth)"

definition filterKeyByBase :: "string \<Rightarrow> string \<Rightarrow> bool" where
  "filterKeyByBase key base =
     (if base \<noteq> [] then prefix base key \<and> (key = [] \<or> last key \<noteq> CHR ''$'')
      else (key = [] \<or> last key \<noteq> CHR ''$''))"

section \<open>Values, errors and the driver contract (src/types.ts)\<close>

text \<open>
  \<open>StorageValue\<close> is \<open>null | string | number | boolean | object\<close>; a driver may
  also hand back \<open>undefined\<close>. Objects are left out: no operation below looks
  inside a value, they only compare it with \<open>null\<close> and with one reserved string.
\<close>

datatype storage_value = VNull | VUndefined | VBool bool | VNum int | VStr string

text \<open>
  Every \<open>throw\<close> and every rejected promise is a value: \<open>Error\<close> is
  \<open>new Error(message)\<close>, \<open>InvalidKey key\<close> is the error the filesystem driver
  creates for a key with a traversal sequence (its message quotes the key),
  \<open>TypeError\<close> is what the runtime raises when a property of \<open>null\<close> or
  \<open>undefined\<close> is read or a missing method is called, and \<open>HTTPError\<close> is h3's
  \<open>createError(statusCode, statusMessage)\<close>.
\<close>

datatype error =
    Error string
  | InvalidKey string
  | TypeError string
  | HTTPError nat string

datatype watch_event = Update | Remove

text \<open>
  An unwatch function, by what a call of it returns. The engine's \<open>unmount\<close> calls
  \<open>.catch\<close> on that result, so the difference matters.
\<close>

datatype unwatch_handle = ReturnsPromise | ReturnsNothing

text \<open>
  \<open>StorageMeta\<close>: the two fields the engine and the server read. \<open>mtime\<close> is a
  date (milliseconds), \<open>ttl\<close> a number of seconds; both may be absent.
\<close>

record storage_meta =
  mtime :: "int option"
  ttl :: "int option"

text \<open>
  A \<open>Driver\<close> is an object: methods closed over private state. The record keeps
  the state in \<open>drv_state\<close> and gives it to each method; a method that mutates
  returns the new state. \<open>hasItem\<close>, \<open>getItem\<close> and \<open>getKeys\<close> are required,
  the other methods are optional members (\<open>None\<close> when the driver does not have
  them). \<open>getKeys\<close> receives the base and \<open>opts.maxDepth\<close>. \<open>drv_watch\<close> says
  whether the driver has a \<open>watch\<close> method, and \<open>drv_unwatch\<close> what a call of the
  unwatch function that this method hands back returns: a promise (an \<open>async\<close>
  function) or nothing (\<open>Unwatch = () => MaybePromise<void>\<close>). The members \<open>name\<close>, \<open>flags\<close>,
  \<open>options\<close>, \<open>getInstance\<close>, \<open>getItems\<close>, \<open>setItems\<close> and \<open>dispose\<close>, and
  the transaction options other than \<open>maxDepth\<close>, play no part below.
\<close>

record 's driver =
  drv_hasItem :: "'s \<Rightarrow> string \<Rightarrow> error + bool"
  drv_getItem :: "'s \<Rightarrow> string \<Rightarrow> error + storage_value"
  drv_getItemRaw :: "('s \<Rightarrow> string \<Rightarrow> error + storage_value) option"
  drv_setItem :: "('s \<Rightarrow> string \<Rightarrow> storage_value \<Rightarrow> error + 's) option"
  drv_setItemRaw :: "('s \<Rightarrow> string \<Rightarrow> storage_value \<Rightarrow> error + 's) option"
  drv_removeItem :: "('s \<Rightarrow> string \<Rightarrow> error + 's) option"
  drv_getMeta :: "('s \<Rightarrow> string \<Rightarrow> error + storage_meta option) option"
  drv_getKeys :: "'s \<Rightarrow> string \<Rightarrow> int option \<Rightarrow> error + string list"
  drv_clear :: "('s \<Rightarrow> string \<Rightarrow> error + 's) option"
  drv_watch :: bool
  drv_unwatch :: unwatch_handle
  drv_state :: 's

section \<open>Memory driver (src/drivers/memory.ts)\<close>

text \<open>
  The driver's \<open>Map\<close> is an association list in insertion order: \<open>data.set\<close>
  overwrites in place or appends (\<open>AList.update\<close>), \<open>data.delete\<close> removes the
  entry, \<open>data.keys()\<close> lists the keys in order. \<open>data.get(key) ?? null\<close> turns
  a missing entry and a stored \<open>undefined\<close> into \<open>null\<close>.
\<close>

type_synonym memory_data = "(string \<times> storage_value) list"

definition memory_get :: "memory_data \<Rightarrow> string \<Rightarrow> storage_value" where
  "memory_get data key =
     (case map_of data key of
        None \<Rightarrow> VNull
      | Some v \<Rightarrow> if v = VUndefined then VNull else v)"

definition memory_driver :: "memory_data \<Rightarrow> memory_data driver" where
  "memory_driver data =
     \<lparr> drv_hasItem = (\<lambda>d key. Inr (map_of d key \<noteq> None)),
       drv_getItem = (\<lambda>d key. Inr (memory_get d key)),
       drv_getItemRaw = Some (\<lambda>d key. Inr (memory_get d key)),
       drv_setItem = Some (\<lambda>d key v. Inr (AList.update key v d)),
       drv_setItemRaw = Some (\<lambda>d key v. Inr (AList.update key v d)),
       drv_removeItem = Some (\<lambda>d key. Inr (AList.delete key d)),
       drv_getMeta = None,
       drv_getKeys = (\<lambda>d base maxDepth. Inr (map fst d)),
       drv_clear = Some (\<lambda>d base. Inr []),
       drv_watch = False,
       drv_unwatch = ReturnsNothing,
       drv_state = data \<rparr>"

definition memory :: "memory_data driver" where
  "memory = memory_driver []"

section \<open>Storage engine (src/storage.ts)\<close>

text \<open>
  \<open>StorageCTX\<close>: \<open>mounts\<close> maps a base to the driver object mounted there (each
  driver object is held by one mount), \<open>mountpoints\<close> is the list of bases that
  \<open>getMount\<close> scans, \<open>unwatch\<close> maps a base to the unwatch function stored
  for it, and \<open>watchListeners\<close> holds the subscribed callbacks, each named by a
  number.
\<close>

record 's storage_ctx =
  mounts :: "string \<rightharpoonup> 's driver"
  mountpoints :: "string list"
  watching :: bool
  unwatch :: "string \<rightharpoonup> unwatch_handle"
  watchListeners :: "nat list"

text \<open>
  \<open>createStorage(options)\<close> mounts \<open>options.driver || memory()\<close> at the root.
  The engine is defined for drivers of any state type, so the default driver is an
  argument; it is \<open>memory\<close> wherever the source's default is meant.
\<close>

definition createStorage :: "'s driver \<Rightarrow> 's driver option \<Rightarrow> 's storage_ctx" where
  "createStorage default_driver options_driver =
     \<lparr> mounts = [[] \<mapsto> (case options_driver of None \<Rightarrow> default_driver | Some d \<Rightarrow> d)],
       mountpoints = [[]],
       watching = False,
       unwatch = Map.empty,
       watchListeners = [] \<rparr>"

record 's mount_info =
  mount_base :: string
  mount_relativeKey :: string
  mount_driver :: "'s driver option"

text \<open>
  \<open>getMount\<close>: the first base of \<open>mountpoints\<close> that the key starts with; the
  root when the loop finds none. \<open>context.mounts[base]\<close> is \<open>undefined\<close> for
  a base without an entry, hence the option.
\<close>

definition getMount :: "'s storage_ctx \<Rightarrow> string \<Rightarrow> 's mount_info" where
  "getMount ctx key =
     (case find (\<lambda>base. prefix base key) (mountpoints ctx) of
        Some base \<Rightarrow>
          \<lparr> mount_base = base,
            mount_relativeKey = drop (length base) key,
            mount_driver = mounts ctx base \<rparr>
      | None \<Rightarrow>
          \<lparr> mount_base = [], mount_relativeKey = key, mount_driver = mounts ctx [] \<rparr>)"

record 's mounts_entry =
  ms_relativeBase :: "string option"
  ms_mountpoint :: string
  ms_driver :: "'s driver option"

definition getMounts :: "'s storage_ctx \<Rightarrow> string \<Rightarrow> bool \<Rightarrow> 's mounts_entry list" where
  "getMounts ctx base includeParent =
     map (\<lambda>mountpoint.
            \<lparr> ms_relativeBase =
                (if length base > length mountpoint
                 then Some (drop (length mountpoint) base) else None),
              ms_mountpoint = mountpoint,
              ms_driver = mounts ctx mountpoint \<rparr>)
       (filter (\<lambda>mountpoint. prefix base mountpoint \<or> (includeParent \<and> prefix mountpoint base))
          (mountpoints ctx))"

subsection \<open>Watching\<close>

text \<open>
  A call of a listener is recorded as (listener, event, key); \<open>onChange\<close> returns
  the calls it makes, in order.
\<close>

type_synonym listener_calls = "(nat \<times> watch_event \<times> string) list"

definition onChange :: "'s storage_ctx \<Rightarrow> watch_event \<Rightarrow> string \<Rightarrow> listener_calls" where
  "onChange ctx event key =
     (if \<not> watching ctx then []
      else map (\<lambda>listener. (listener, event, normalizeKey key)) (watchListeners ctx))"

text \<open>
  The helper \<open>watch(driver, onChange, base)\<close> at the end of the file calls
  \<open>driver.watch(onChange)\<close> when the driver has the method. Its result here is the
  callback the driver is left with (\<open>None\<close> for a driver without \<open>watch\<close>).
\<close>

definition watch :: "'s driver \<Rightarrow> 'cb \<Rightarrow> string \<Rightarrow> 'cb option" where
  "watch driver onChange_cb base = (if drv_watch driver then Some onChange_cb else None)"

text \<open>
  The unwatch function the helper resolves to: the one \<open>driver.watch\<close> hands back,
  or \<open>() => {}\<close>, which returns nothing, for a driver without \<open>watch\<close>.
\<close>

definition unwatch_of :: "'s driver \<Rightarrow> unwatch_handle" where
  "unwatch_of driver = (if drv_watch driver then drv_unwatch driver else ReturnsNothing)"

text \<open>
  \<open>driver_reports ctx base event key\<close>: the driver mounted at \<open>base\<close>, for which
  the engine has called the helper, reports \<open>(event, key)\<close> through the callback
  it was given; the result is the listener calls this causes.
\<close>

definition driver_reports ::
  "'s storage_ctx \<Rightarrow> string \<Rightarrow> watch_event \<Rightarrow> string \<Rightarrow> listener_calls" where
  "driver_reports ctx base event key =
     (case mounts ctx base of
        None \<Rightarrow> []
      | Some d \<Rightarrow>
          if base \<in> dom (unwatch ctx)
          then (case watch d (onChange ctx) base of None \<Rightarrow> [] | Some cb \<Rightarrow> cb event key)
          else [])"

definition startWatch :: "'s storage_ctx \<Rightarrow> 's storage_ctx" where
  "startWatch ctx =
     (if watching ctx then ctx
      else ctx\<lparr> watching := True,
                unwatch := (\<lambda>mountpoint.
                              case mounts ctx mountpoint of
                                None \<Rightarrow> unwatch ctx mountpoint
                              | Some d \<Rightarrow> Some (unwatch_of d)) \<rparr>)"

definition stopWatch :: "'s storage_ctx \<Rightarrow> 's storage_ctx" where
  "stopWatch ctx =
     (if \<not> watching ctx then ctx else ctx\<lparr>unwatch := Map.empty, watching := False\<rparr>)"

text \<open>
  \<open>xs.splice(xs.indexOf(x), 1)\<close>: removes the first occurrence of \<open>x\<close>; when
  \<open>x\<close> is not in the array \<open>indexOf\<close> is -1 and \<open>splice\<close> removes the last
  element.
\<close>

definition splice_indexOf :: "'a \<Rightarrow> 'a list \<Rightarrow> 'a list" where
  "splice_indexOf x xs = (if x \<in> set xs then remove1 x xs else butlast xs)"

definition storage_watch :: "'s storage_ctx \<Rightarrow> nat \<Rightarrow> 's storage_ctx" where
  "storage_watch ctx callback =
     (let ctx1 = ctx\<lparr>watchListeners := watchListeners ctx @ [callback]\<rparr>
      in if \<not> watching ctx1 then startWatch ctx1 else ctx1)"

text \<open>The function that \<open>storage.watch\<close> returns, called later on a context.\<close>

definition unwatch_listener :: "'s storage_ctx \<Rightarrow> nat \<Rightarrow> 's storage_ctx" where
  "unwatch_listener ctx callback =
     (let ctx1 = ctx\<lparr>watchListeners := splice_indexOf callback (watchListeners ctx)\<rparr>
      in if watchListeners ctx1 = [] \<and> watching ctx1 then stopWatch ctx1 else ctx1)"

definition storage_unwatch :: "'s storage_ctx \<Rightarrow> 's storage_ctx" where
  "storage_unwatch ctx = stopWatch (ctx\<lparr>watchListeners := []\<rparr>)"

subsection \<open>Mounting\<close>

text \<open>
  \<open>mountpoints.sort((a, b) => b.length - a.length)\<close>: a stable sort by
  descending length.
\<close>

definition sort_by_length_desc :: "string list \<Rightarrow> string list" where
  "sort_by_length_desc bases = sort_key (\<lambda>b. - int (length b)) bases"

text \<open>
  \<open>mount(base, driver)\<close>; a \<open>null\<close> driver is \<open>None\<close>. When the engine is
  watching, the helper \<open>watch\<close> is called for the new driver and its handle is
  stored under the base.
\<close>

definition mount ::
  "'s storage_ctx \<Rightarrow> string \<Rightarrow> 's driver option \<Rightarrow> error + 's storage_ctx" where
  "mount ctx base0 driver =
     (let base = normalizeBaseKey base0 in
      if base = [] \<or> mounts ctx base \<noteq> None
      then Inl (Error (''Cannot mount to an existing mountpoint: '' @ [CHR 0x22] @ base @ [CHR 0x22]))
      else (case driver of
              None \<Rightarrow> Inl (Error ''Cannot mount empty driver'')
            | Some d \<Rightarrow>
                Inr (ctx\<lparr> mounts := (mounts ctx)(base \<mapsto> d),
                          mountpoints := sort_by_length_desc (mountpoints ctx @ [base]),
                          unwatch := (if watching ctx then (unwatch ctx)(base \<mapsto> unwatch_of d)
                                      else unwatch ctx) \<rparr>)))"

text \<open>
  \<open>unmount(base)\<close>. When the engine is watching and an unwatch function is stored
  for the base, it runs \<open>context.unwatch[base]!().catch(console.error)\<close> first: the
  function is called and \<open>.catch\<close> is read from what it returns. For a function that
  returns nothing this is a \<open>TypeError\<close>, thrown before anything is deleted, so the
  context stays as it is. Otherwise the stored function is deleted, then the mount and
  its mountpoint.
\<close>

definition unmount :: "'s storage_ctx \<Rightarrow> string \<Rightarrow> error + 's storage_ctx" where
  "unmount ctx base0 =
     (let base = normalizeBaseKey base0 in
      if base = [] then Inl (Error ''Cannot unmount root'')
      else if mounts ctx base = None then Inr ctx
      else (case (if watching ctx then unwatch ctx base else None) of
              Some ReturnsNothing \<Rightarrow>
                Inl (TypeError ''Cannot read properties of undefined (reading catch)'')
            | Some ReturnsPromise \<Rightarrow>
                Inr (ctx\<lparr> unwatch := (unwatch ctx)(base := None),
                          mounts := (mounts ctx)(base := None),
                          mountpoints := splice_indexOf base (mountpoints ctx) \<rparr>)
            | None \<Rightarrow>
                Inr (ctx\<lparr> mounts := (mounts ctx)(base := None),
                          mountpoints := splice_indexOf base (mountpoints ctx) \<rparr>)))"

text \<open>
  \<open>dispose()\<close> stops watching, disposes the drivers and resets the context to a
  fresh default driver at the root.
\<close>

definition dispose :: "'s driver \<Rightarrow> 's storage_ctx \<Rightarrow> 's storage_ctx" where
  "dispose default_driver ctx =
     (stopWatch ctx)\<lparr> mounts := [[] \<mapsto> default_driver],
                       mountpoints := [[]],
                       watchListeners := [],
                       unwatch := Map.empty \<rparr>"

subsection \<open>Item operations\<close>

text \<open>
  Every operation normalizes the key, asks \<open>getMount\<close> and calls the driver with
  the relative key. \<open>destr\<close> (the tolerant parser, an external library),
  \<open>stringify\<close> and \<open>deserializeRaw\<close> (of \<open>_utils\<close>) are arguments. Reading a
  method of a missing driver, or calling a missing method through \<open>asyncCall\<close>,
  is a \<open>TypeError\<close>.
\<close>

definition not_a_function :: error where
  "not_a_function = TypeError ''not a function''"

definition no_driver :: error where
  "no_driver = TypeError ''Cannot read properties of undefined''"

definition storage_hasItem :: "'s storage_ctx \<Rightarrow> string \<Rightarrow> error + bool" where
  "storage_hasItem ctx key0 =
     (let m = getMount ctx (normalizeKey key0) in
      case mount_driver m of
        None \<Rightarrow> Inl no_driver
      | Some d \<Rightarrow> drv_hasItem d (drv_state d) (mount_relativeKey m))"

definition storage_getItem ::
  "(storage_value \<Rightarrow> storage_value) \<Rightarrow> 's storage_ctx \<Rightarrow> string \<Rightarrow> error + storage_value" where
  "storage_getItem destr ctx key0 =
     (let m = getMount ctx (normalizeKey key0) in
      case mount_driver m of
        None \<Rightarrow> Inl no_driver
      | Some d \<Rightarrow>
          (case drv_getItem d (drv_state d) (mount_relativeKey m) of
             Inl e \<Rightarrow> Inl e
           | Inr v \<Rightarrow> Inr (destr v)))"

definition storage_getItemRaw ::
  "(storage_value \<Rightarrow> storage_value) \<Rightarrow> 's storage_ctx \<Rightarrow> string \<Rightarrow> error + storage_value" where
  "storage_getItemRaw deserializeRaw ctx key0 =
     (let m = getMount ctx (normalizeKey key0) in
      case mount_driver m of
        None \<Rightarrow> Inl no_driver
      | Some d \<Rightarrow>
          (case drv_getItemRaw d of
             Some get_raw \<Rightarrow> get_raw (drv_state d) (mount_relativeKey m)
           | None \<Rightarrow>
               (case drv_getItem d (drv_state d) (mount_relativeKey m) of
                  Inl e \<Rightarrow> Inl e
                | Inr v \<Rightarrow> Inr (deserializeRaw v))))"

text \<open>The driver object at \<open>base\<close> after one of its methods changed its state.\<close>

definition put_state :: "'s storage_ctx \<Rightarrow> string \<Rightarrow> 's driver \<Rightarrow> 's \<Rightarrow> 's storage_ctx" where
  "put_state ctx base d s = ctx\<lparr>mounts := (mounts ctx)(base \<mapsto> d\<lparr>drv_state := s\<rparr>)\<rparr>"

definition storage_setItem ::
  "(storage_value \<Rightarrow> error + string) \<Rightarrow> 's storage_ctx \<Rightarrow> string \<Rightarrow> storage_value
     \<Rightarrow> error + 's storage_ctx" where
  "storage_setItem stringify ctx key0 v =
     (let m = getMount ctx (normalizeKey key0) in
      case mount_driver m of
        None \<Rightarrow> Inl no_driver
      | Some d \<Rightarrow>
          (case drv_setItemRaw d of
             Some set_raw \<Rightarrow>
               (case set_raw (drv_state d) (mount_relativeKey m) v of
                  Inl e \<Rightarrow> Inl e
                | Inr s \<Rightarrow> Inr (put_state ctx (mount_base m) d s))
           | None \<Rightarrow>
               (case stringify v of
                  Inl e \<Rightarrow> Inl e
                | Inr serialized \<Rightarrow>
                    (case drv_setItem d of
                       None \<Rightarrow> Inl not_a_function
                     | Some set_fn \<Rightarrow>
                         (case set_fn (drv_state d) (mount_relativeKey m) (VStr serialized) of
                            Inl e \<Rightarrow> Inl e
                          | Inr s \<Rightarrow> Inr (put_state ctx (mount_base m) d s))))))"

definition storage_removeItem :: "'s storage_ctx \<Rightarrow> string \<Rightarrow> error + 's storage_ctx" where
  "storage_removeItem ctx key0 =
     (let m = getMount ctx (normalizeKey key0) in
      case mount_driver m of
        None \<Rightarrow> Inl no_driver
      | Some d \<Rightarrow>
          (case drv_removeItem d of
             None \<Rightarrow> Inr ctx
           | Some remove_fn \<Rightarrow>
               (case remove_fn (drv_state d) (mount_relativeKey m) of
                  Inl e \<Rightarrow> Inl e
                | Inr s \<Rightarrow> Inr (put_state ctx (mount_base m) d s))))"

text \<open>\<open>getMeta\<close> resolves to \<open>null\<close> (\<open>None\<close>) for a driver without \<open>getMeta\<close>.\<close>

definition storage_getMeta :: "'s storage_ctx \<Rightarrow> string \<Rightarrow> error + storage_meta option" where
  "storage_getMeta ctx key0 =
     (let m = getMount ctx (normalizeKey key0) in
      case mount_driver m of
        None \<Rightarrow> Inl no_driver
      | Some d \<Rightarrow>
          (case drv_getMeta d of
             None \<Rightarrow> Inr None
           | Some get_meta \<Rightarrow> get_meta (drv_state d) (mount_relativeKey m)))"

subsection \<open>Key enumeration\<close>

text \<open>\<open>[...new Set(keys)]\<close> keeps the first occurrence of every key.\<close>

fun unique :: "'a list \<Rightarrow> 'a list" where
  "unique [] = []"
| "unique (x # xs) = x # unique (filter (\<lambda>y. y \<noteq> x) xs)"

text \<open>\<open>Promise.all\<close>: all the results, or the first rejection.\<close>

fun all_results :: "(error + 'a) list \<Rightarrow> error + 'a list" where
  "all_results [] = Inr []"
| "all_results (r # rs) =
     (case r of
        Inl e \<Rightarrow> Inl e
      | Inr x \<Rightarrow> (case all_results rs of Inl e \<Rightarrow> Inl e | Inr xs \<Rightarrow> Inr (x # xs)))"

text \<open>
  One mount's contribution to \<open>getKeys\<close>. The driver lists the keys under
  \<open>relativeBase || ""\<close>; the engine joins each with the mountpoint and filters
  with \<open>filterKeyByDepth(key, base, opts.maxDepth)\<close>: the call passes three
  arguments to a function of two, so \<open>depth\<close> is bound to \<open>base\<close> and
  \<open>opts.maxDepth\<close> is dropped. A driver that fails contributes no key.
\<close>

definition keys_of_mount ::
  "string \<Rightarrow> int option \<Rightarrow> 's mounts_entry \<Rightarrow> error + string list" where
  "keys_of_mount base maxDepth e =
     (case ms_driver e of
        None \<Rightarrow> Inl no_driver
      | Some d \<Rightarrow>
          Inr (case drv_getKeys d (drv_state d)
                      (case ms_relativeBase e of None \<Rightarrow> [] | Some r \<Rightarrow> r) maxDepth of
                 Inl err \<Rightarrow> []
               | Inr keys \<Rightarrow>
                   filter (\<lambda>key. filterKeyByDepth key (JSString base))
                     (map (\<lambda>key. joinKeys [ms_mountpoint e, key]) keys)))"

definition storage_getKeys ::
  "'s storage_ctx \<Rightarrow> string \<Rightarrow> int option \<Rightarrow> error + string list" where
  "storage_getKeys ctx base0 maxDepth =
     (let base = normalizeBaseKey base0 in
      case all_results (map (keys_of_mount base maxDepth) (getMounts ctx base False)) of
        Inl e \<Rightarrow> Inl e
      | Inr keys \<Rightarrow> Inr (filter (\<lambda>key. filterKeyByBase key base) (unique (concat keys))))"

subsection \<open>Reachable contexts\<close>

text \<open>
  The contexts a storage can be in: created, then changed by \<open>mount\<close>,
  \<open>unmount\<close>, \<open>dispose\<close>, \<open>watch\<close>, the returned unwatch function and
  \<open>unwatch\<close>, and by a mounted driver changing its state (what \<open>setItem\<close>,
  \<open>setItemRaw\<close>, \<open>removeItem\<close> and \<open>clear\<close> do to the context, and what the
  backend may do by itself).
\<close>

inductive reachable :: "'s driver \<Rightarrow> 's storage_ctx \<Rightarrow> bool" for dflt :: "'s driver" where
  created: "reachable dflt (createStorage dflt options_driver)"
| mounted: "reachable dflt ctx \<Longrightarrow> mount ctx base driver = Inr ctx' \<Longrightarrow> reachable dflt ctx'"
| unmounted: "reachable dflt ctx \<Longrightarrow> unmount ctx base = Inr ctx' \<Longrightarrow> reachable dflt ctx'"
| disposed: "reachable dflt ctx \<Longrightarrow> reachable dflt (dispose dflt ctx)"
| watched: "reachable dflt ctx \<Longrightarrow> reachable dflt (storage_watch ctx callback)"
| unwatched_one: "reachable dflt ctx \<Longrightarrow> reachable dflt (unwatch_listener ctx callback)"
| unwatched: "reachable dflt ctx \<Longrightarrow> reachable dflt (storage_unwatch ctx)"
| driver_step:
    "reachable dflt ctx \<Longrightarrow> mounts ctx base = Some d \<Longrightarrow> reachable dflt (put_state ctx base d s)"

section \<open>Overlay driver (src/drivers/overlay.ts)\<close>

text \<open>
  The overlay imports \<open>normalizeKey\<close> from the drivers' utilities, not from
  \<open>src/utils.ts\<close>: every colon, slash and backslash becomes a colon, then one
  separator is dropped at the start and one at the end.
\<close>

definition is_separator :: "char \<Rightarrow> bool" where
  "is_separator c \<longleftrightarrow> c = CHR '':'' \<or> c = CHR ''/'' \<or> c = CHR 0x5C"

definition trim_separators :: "string \<Rightarrow> string" where
  "trim_separators key =
     (let k = (case key of [] \<Rightarrow> [] | c # cs \<Rightarrow> if is_separator c then cs else c # cs)
      in if k \<noteq> [] \<and> is_separator (last k) then butlast k else k)"

definition drivers_normalizeKey :: "string \<Rightarrow> string" where
  "drivers_normalizeKey key =
     (if key = [] then []
      else trim_separators (map (\<lambda>c. if is_separator c then CHR '':'' else c) key))"

definition OVERLAY_REMOVED :: string where
  "OVERLAY_REMOVED = ''__OVERLAY_REMOVED__''"

text \<open>
  The overlay's state is its list \<open>options.layers\<close> of driver objects, top layer
  first. \<open>hasItem\<close> compares each layer with \<open>layers[0]\<close>; the layers are distinct
  objects, so only the first round of the loop is the top.
\<close>

fun overlay_hasItem_loop :: "bool \<Rightarrow> 's driver list \<Rightarrow> string \<Rightarrow> error + bool" where
  "overlay_hasItem_loop is_top [] key = Inr False"
| "overlay_hasItem_loop is_top (layer # layers) key =
     (case drv_hasItem layer (drv_state layer) key of
        Inl e \<Rightarrow> Inl e
      | Inr has \<Rightarrow>
          if has then
            (if is_top then
               (case drv_getItem layer (drv_state layer) key of
                  Inl e \<Rightarrow> Inl e
                | Inr topLayerValue \<Rightarrow> Inr (topLayerValue \<noteq> VStr OVERLAY_REMOVED))
             else Inr True)
          else overlay_hasItem_loop False layers key)"

definition overlay_hasItem :: "'s driver list \<Rightarrow> string \<Rightarrow> error + bool" where
  "overlay_hasItem layers key = overlay_hasItem_loop True layers key"

fun overlay_getItem :: "'s driver list \<Rightarrow> string \<Rightarrow> error + storage_value" where
  "overlay_getItem [] key = Inr VNull"
| "overlay_getItem (layer # layers) key =
     (case drv_getItem layer (drv_state layer) key of
        Inl e \<Rightarrow> Inl e
      | Inr v \<Rightarrow>
          if v = VStr OVERLAY_REMOVED then Inr VNull
          else if v \<noteq> VNull then Inr v
          else overlay_getItem layers key)"

text \<open>
  \<open>setItem\<close> and \<open>removeItem\<close> are \<open>options.layers[0]?.setItem?.(key, ...)\<close>:
  nothing happens when there is no layer or the top layer has no \<open>setItem\<close>.
\<close>

definition overlay_setItem ::
  "'s driver list \<Rightarrow> string \<Rightarrow> storage_value \<Rightarrow> error + 's driver list" where
  "overlay_setItem layers key v =
     (case layers of
        [] \<Rightarrow> Inr []
      | topLayer # lower \<Rightarrow>
          (case drv_setItem topLayer of
             None \<Rightarrow> Inr (topLayer # lower)
           | Some set_fn \<Rightarrow>
               (case set_fn (drv_state topLayer) key v of
                  Inl e \<Rightarrow> Inl e
                | Inr s \<Rightarrow> Inr (topLayer\<lparr>drv_state := s\<rparr> # lower))))"

definition overlay_removeItem :: "'s driver list \<Rightarrow> string \<Rightarrow> error + 's driver list" where
  "overlay_removeItem layers key =
     (case layers of
        [] \<Rightarrow> Inr []
      | topLayer # lower \<Rightarrow>
          (case drv_setItem topLayer of
             None \<Rightarrow> Inr (topLayer # lower)
           | Some set_fn \<Rightarrow>
               (case set_fn (drv_state topLayer) key (VStr OVERLAY_REMOVED) of
                  Inl e \<Rightarrow> Inl e
                | Inr s \<Rightarrow> Inr (topLayer\<lparr>drv_state := s\<rparr> # lower))))"

text \<open>
  \<open>getKeys\<close>: the keys of all layers, normalized and without repetition; each is
  kept unless the top layer's value for it is the sentinel. A kept key stands for
  itself and a dropped one for \<open>false\<close> (\<open>None\<close>); \<open>filter(Boolean)\<close> then drops
  \<open>false\<close> and the empty key.
\<close>

definition overlay_key_exists :: "'s driver list \<Rightarrow> string \<Rightarrow> error + string option" where
  "overlay_key_exists layers key =
     (case layers of
        [] \<Rightarrow> Inr (Some key)
      | topLayer # lower \<Rightarrow>
          (case drv_getItem topLayer (drv_state topLayer) key of
             Inl e \<Rightarrow> Inl e
           | Inr topLayerValue \<Rightarrow>
               Inr (if topLayerValue = VStr OVERLAY_REMOVED then None else Some key)))"

definition overlay_layer_keys ::
  "string \<Rightarrow> int option \<Rightarrow> 's driver \<Rightarrow> error + string list" where
  "overlay_layer_keys base maxDepth layer =
     (case drv_getKeys layer (drv_state layer) base maxDepth of
        Inl e \<Rightarrow> Inl e
      | Inr keys \<Rightarrow> Inr (map drivers_normalizeKey keys))"

definition overlay_getKeys ::
  "'s driver list \<Rightarrow> string \<Rightarrow> int option \<Rightarrow> error + string list" where
  "overlay_getKeys layers base maxDepth =
     (case all_results (map (overlay_layer_keys base maxDepth) layers) of
        Inl e \<Rightarrow> Inl e
      | Inr allKeysNested \<Rightarrow>
          (case all_results (map (overlay_key_exists layers) (unique (concat allKeysNested))) of
             Inl e \<Rightarrow> Inl e
           | Inr existingKeys \<Rightarrow>
               Inr (concat (map (\<lambda>r. case r of None \<Rightarrow> []
                                        | Some key \<Rightarrow> if key = [] then [] else [key])
                              existingKeys))))"

definition overlay :: "'s driver list \<Rightarrow> 's driver list driver" where
  "overlay layers =
     \<lparr> drv_hasItem = overlay_hasItem,
       drv_getItem = overlay_getItem,
       drv_getItemRaw = None,
       drv_setItem = Some overlay_setItem,
       drv_setItemRaw = None,
       drv_removeItem = Some overlay_removeItem,
       drv_getMeta = None,
       drv_getKeys = overlay_getKeys,
       drv_clear = None,
       drv_watch = False,
       drv_unwatch = ReturnsNothing,
       drv_state = layers \<rparr>"

section \<open>Filesystem driver (src/drivers/fs.ts)\<close>

text \<open>
  \<open>PATH_TRAVERSE_RE = /\.\.:|\.\.$/\<close>. \<open>test(key)\<close> tries every position of the
  key: two dots and a colon from there on, or two dots that end the key.
\<close>

fun PATH_TRAVERSE_RE_test :: "string \<Rightarrow> bool" where
  "PATH_TRAVERSE_RE_test [] = False"
| "PATH_TRAVERSE_RE_test (c # cs) =
     (prefix ''..:'' (c # cs) \<or> c # cs = ''..'' \<or> PATH_TRAVERSE_RE_test cs)"

text \<open>
  The driver's options: the resolved base directory and the two flags. The ignore
  patterns and the watcher options play no part in resolving keys.
\<close>

record fs_options =
  fs_base :: string
  readOnly :: bool
  noClear :: bool

text \<open>
  The driver works on the file system through Node's \<open>path.join\<close>, \<open>existsSync\<close>
  and \<open>fsp.stat\<close>, and through the helpers of \<open>drivers/utils/node-fs\<close>. They
  are arguments of the driver: a record of functions on a file system state of any type
  \<open>'fs\<close>. \<open>stat\<close> gives the file's \<open>mtime\<close>, or \<open>None\<close> when it fails.
\<close>

record 'fs node_fs =
  join :: "string \<Rightarrow> string \<Rightarrow> string"
  existsSync :: "'fs \<Rightarrow> string \<Rightarrow> bool"
  stat :: "'fs \<Rightarrow> string \<Rightarrow> int option"
  readFile :: "'fs \<Rightarrow> string \<Rightarrow> error + storage_value"
  writeFile :: "'fs \<Rightarrow> string \<Rightarrow> storage_value \<Rightarrow> error + 'fs"
  unlink :: "'fs \<Rightarrow> string \<Rightarrow> error + 'fs"
  readdirRecursive :: "'fs \<Rightarrow> string \<Rightarrow> int option \<Rightarrow> error + string list"
  rmRecursive :: "'fs \<Rightarrow> string \<Rightarrow> error + 'fs"

definition colons_to_slashes :: "string \<Rightarrow> string" where
  "colons_to_slashes key = map (\<lambda>c. if c = CHR '':'' then CHR ''/'' else c) key"

text \<open>
  \<open>r(key)\<close>: the key's path under the base directory, or the error for a key with
  a traversal sequence.
\<close>

definition r :: "'fs node_fs \<Rightarrow> fs_options \<Rightarrow> string \<Rightarrow> error + string" where
  "r io opts key =
     (if PATH_TRAVERSE_RE_test key then Inl (InvalidKey key)
      else Inr (join io (fs_base opts) (colons_to_slashes key)))"

definition fs_hasItem :: "'fs node_fs \<Rightarrow> fs_options \<Rightarrow> 'fs \<Rightarrow> string \<Rightarrow> error + bool" where
  "fs_hasItem io opts fs key =
     (case r io opts key of Inl e \<Rightarrow> Inl e | Inr path \<Rightarrow> Inr (existsSync io fs path))"

definition fs_getItem ::
  "'fs node_fs \<Rightarrow> fs_options \<Rightarrow> 'fs \<Rightarrow> string \<Rightarrow> error + storage_value" where
  "fs_getItem io opts fs key =
     (case r io opts key of Inl e \<Rightarrow> Inl e | Inr path \<Rightarrow> readFile io fs path)"

text \<open>
  \<open>getMeta\<close>: \<open>r(key)\<close> is evaluated first; a failing \<open>stat\<close> is caught and
  gives a record without times.
\<close>

definition fs_getMeta ::
  "'fs node_fs \<Rightarrow> fs_options \<Rightarrow> 'fs \<Rightarrow> string \<Rightarrow> error + storage_meta option" where
  "fs_getMeta io opts fs key =
     (case r io opts key of
        Inl e \<Rightarrow> Inl e
      | Inr path \<Rightarrow> Inr (Some \<lparr>mtime = stat io fs path, ttl = None\<rparr>))"

definition fs_setItem ::
  "'fs node_fs \<Rightarrow> fs_options \<Rightarrow> 'fs \<Rightarrow> string \<Rightarrow> storage_value \<Rightarrow> error + 'fs" where
  "fs_setItem io opts fs key v =
     (if readOnly opts then Inr fs
      else (case r io opts key of Inl e \<Rightarrow> Inl e | Inr path \<Rightarrow> writeFile io fs path v))"

definition fs_removeItem :: "'fs node_fs \<Rightarrow> fs_options \<Rightarrow> 'fs \<Rightarrow> string \<Rightarrow> error + 'fs" where
  "fs_removeItem io opts fs key =
     (if readOnly opts then Inr fs
      else (case r io opts key of Inl e \<Rightarrow> Inl e | Inr path \<Rightarrow> unlink io fs path))"

definition fs_getKeys ::
  "'fs node_fs \<Rightarrow> fs_options \<Rightarrow> 'fs \<Rightarrow> string \<Rightarrow> int option \<Rightarrow> error + string list" where
  "fs_getKeys io opts fs base maxDepth =
     (case r io opts base of
        Inl e \<Rightarrow> Inl e
      | Inr path \<Rightarrow> readdirRecursive io fs path maxDepth)"

definition fs_clear :: "'fs node_fs \<Rightarrow> fs_options \<Rightarrow> 'fs \<Rightarrow> string \<Rightarrow> error + 'fs" where
  "fs_clear io opts fs base =
     (if readOnly opts \<or> noClear opts then Inr fs
      else (case r io opts ''.'' of Inl e \<Rightarrow> Inl e | Inr path \<Rightarrow> rmRecursive io fs path))"

definition fs_driver :: "'fs node_fs \<Rightarrow> fs_options \<Rightarrow> 'fs \<Rightarrow> 'fs driver" where
  "fs_driver io opts fs =
     \<lparr> drv_hasItem = fs_hasItem io opts,
       drv_getItem = fs_getItem io opts,
       drv_getItemRaw = Some (fs_getItem io opts),
       drv_setItem = Some (fs_setItem io opts),
       drv_setItemRaw = Some (fs_setItem io opts),
       drv_removeItem = Some (fs_removeItem io opts),
       drv_getMeta = Some (fs_getMeta io opts),
       drv_getKeys = fs_getKeys io opts,
       drv_clear = Some (fs_clear io opts),
       drv_watch = True,
       drv_unwatch = ReturnsPromise,
       drv_state = fs \<rparr>"

text \<open>
  The pattern in the words of the spec: the key contains \<open>..:\<close> or ends in \<open>..\<close>.
\<close>

definition has_traversal :: "string \<Rightarrow> bool" where
  "has_traversal key \<longleftrightarrow> (\<exists>u v. key = u @ ''..:'' @ v) \<or> suffix ''..'' key"

section \<open>HTTP server (src/server.ts)\<close>

text \<open>
  Functions the server and the engine take from outside the files modelled here:
  \<open>destr\<close> (the tolerant parser), \<open>stringify\<close> and \<open>deserializeRaw\<close> of
  \<open>_utils\<close>, \<open>Date.toUTCString\<close> and the conversion of a number to text in a
  template string.
\<close>

record runtime =
  rt_destr :: "storage_value \<Rightarrow> storage_value"
  rt_stringify :: "storage_value \<Rightarrow> error + string"
  rt_deserializeRaw :: "storage_value \<Rightarrow> storage_value"
  rt_toUTCString :: "int \<Rightarrow> string"
  rt_number_to_string :: "int \<Rightarrow> string"

text \<open>
  A GET request: its path and its \<open>Accept\<close> header. The hooks of
  \<open>StorageServerOptions\<close>: \<open>authorize\<close> is called with the key (the type is
  \<open>read\<close> for GET) and either returns or throws an error; \<open>resolvePath\<close> gives
  the path to use instead of \<open>event.path\<close>.
\<close>

record h3_event =
  event_path :: string
  accept :: "string option"

record server_options =
  authorize :: "(string \<Rightarrow> error option) option"
  resolvePath :: "(h3_event \<Rightarrow> string) option"

datatype response_body = KeyList "string list" | RawValue storage_value | TextBody string

record http_response =
  response_headers :: "(string \<times> string) list"
  response_body :: response_body

text \<open>
  An error thrown by \<open>authorize\<close> is passed on when it is an h3 error and is
  wrapped with status 401 otherwise.
\<close>

fun authorize_error :: "error \<Rightarrow> error" where
  "authorize_error (HTTPError status message) = HTTPError status message"
| "authorize_error (Error message) = HTTPError 401 message"
| "authorize_error (TypeError message) = HTTPError 401 message"
| "authorize_error (InvalidKey key) = HTTPError 401 key"

text \<open>
  \<open>setMetaHeaders(event, meta)\<close> reads \<open>meta.mtime\<close> and \<open>meta.ttl\<close>; on
  \<open>null\<close> the first read throws. A date is truthy, a \<open>ttl\<close> of 0 is not. The
  response has no header before the call.
\<close>

definition setMetaHeaders ::
  "runtime \<Rightarrow> storage_meta option \<Rightarrow> error + (string \<times> string) list" where
  "setMetaHeaders rt meta =
     (case meta of
        None \<Rightarrow> Inl (TypeError ''Cannot read properties of null (reading mtime)'')
      | Some m \<Rightarrow>
          Inr ((case mtime m of
                  None \<Rightarrow> []
                | Some t \<Rightarrow> [(''last-modified'', rt_toUTCString rt t)])
               @ (case ttl m of
                    None \<Rightarrow> []
                  | Some n \<Rightarrow>
                      if n = 0 then []
                      else [(''x-ttl'', rt_number_to_string rt n),
                            (''cache-control'', ''max-age='' @ rt_number_to_string rt n)])))"

text \<open>
  \<open>createH3StorageHandler(storage, opts)\<close> on a GET request: the path is resolved
  to a key, GET passes the method check, \<open>authorize\<close> runs, then the GET branch
  lists the keys of a base or returns the value of a key.
\<close>

definition createH3StorageHandler_get ::
  "runtime \<Rightarrow> 's storage_ctx \<Rightarrow> server_options \<Rightarrow> h3_event \<Rightarrow> error + http_response" where
  "createH3StorageHandler_get rt ctx opts event =
     (let path = (case resolvePath opts of None \<Rightarrow> event_path event | Some f \<Rightarrow> f event);
          isBaseKey = (path \<noteq> [] \<and> (last path = CHR '':'' \<or> last path = CHR ''/''));
          key = (if isBaseKey then normalizeBaseKey path else normalizeKey path)
      in case (case authorize opts of None \<Rightarrow> None | Some hook \<Rightarrow> hook key) of
           Some e \<Rightarrow> Inl (authorize_error e)
         | None \<Rightarrow>
             if isBaseKey then
               (case storage_getKeys ctx key None of
                  Inl e \<Rightarrow> Inl e
                | Inr keys \<Rightarrow>
                    Inr \<lparr>response_headers = [],
                         response_body = KeyList (map colons_to_slashes keys)\<rparr>)
             else
               (let isRaw = (accept event = Some ''application/octet-stream'') in
                case (if isRaw then storage_getItemRaw (rt_deserializeRaw rt) ctx key
                      else storage_getItem (rt_destr rt) ctx key) of
                  Inl e \<Rightarrow> Inl e
                | Inr driverValue \<Rightarrow>
                    if driverValue = VNull then Inl (HTTPError 404 ''KV value not found'')
                    else
                      (case storage_getMeta ctx key of
                         Inl e \<Rightarrow> Inl e
                       | Inr meta \<Rightarrow>
                           (case setMetaHeaders rt meta of
                              Inl e \<Rightarrow> Inl e
                            | Inr headers \<Rightarrow>
                                if isRaw then
                                  Inr \<lparr>response_headers = headers,
                                       response_body = RawValue driverValue\<rparr>
                                else
                                  (case rt_stringify rt driverValue of
                                     Inl e \<Rightarrow> Inl e
                                   | Inr serialized \<Rightarrow>
                                       Inr \<lparr>response_headers = headers,
                                            response_body = TextBody serialized\<rparr>)))))"

section \<open>Invariants of the mount table\<close>

text \<open>
  The shape of a well-formed mount table: the bases are listed by descending length
  without repetition, the root is among them, and the listed bases are exactly the
  bases that have a driver.
\<close>

definition descending :: "string list \<Rightarrow> bool" where
  "descending bases = sorted_wrt (\<lambda>a b. length b \<le> length a) bases"

definition mount_table_ok :: "'s storage_ctx \<Rightarrow> bool" where
  "mount_table_ok ctx \<longleftrightarrow>
     descending (mountpoints ctx) \<and> [] \<in> set (mountpoints ctx) \<and>
     distinct (mountpoints ctx) \<and> dom (mounts ctx) = set (mountpoints ctx)"

section \<open>Example storages\<close>

text \<open>
  The storage of the test "getMount and getMounts" after \<open>mount("cache", memory())\<close>
  and \<open>mount("cache:sub", memory())\<close>.
\<close>

definition cache_ctx :: "memory_data storage_ctx" where
  "cache_ctx =
     \<lparr> mounts = [[] \<mapsto> memory, ''cache:'' \<mapsto> memory, ''cache:sub:'' \<mapsto> memory],
       mountpoints = [''cache:sub:'', ''cache:'', []],
       watching = False,
       unwatch = Map.empty,
       watchListeners = [] \<rparr>"

definition cache_only_ctx :: "memory_data storage_ctx" where
  "cache_only_ctx =
     \<lparr> mounts = [[] \<mapsto> memory, ''cache:'' \<mapsto> memory],
       mountpoints = [''cache:'', []],
       watching = False,
       unwatch = Map.empty,
       watchListeners = [] \<rparr>"





text \<open>
  A driver with a \<open>watch\<close> method whose unwatch function is \<open>async\<close>, as the
  filesystem driver's is (otherwise the memory driver), mounted at
  \<open>/mnt\<close> as in the test "watch", and the storage after listener 7 has subscribed.
\<close>

definition watchable :: "memory_data driver" where
  "watchable = memory\<lparr>drv_watch := True, drv_unwatch := ReturnsPromise\<rparr>"

definition mnt_ctx :: "memory_data storage_ctx" where
  "mnt_ctx =
     \<lparr> mounts = [[] \<mapsto> memory, ''mnt:'' \<mapsto> watchable],
       mountpoints = [''mnt:'', []],
       watching = False,
       unwatch = Map.empty,
       watchListeners = [] \<rparr>"

definition mnt_watching_ctx :: "memory_data storage_ctx" where
  "mnt_watching_ctx = storage_watch mnt_ctx 7"

text \<open>
  The default storage whose root memory driver holds the given keys, each set to
  \<open>"test_data"\<close>, in this order.
\<close>

definition holding :: "string list \<Rightarrow> memory_data storage_ctx" where
  "holding keys =
     createStorage memory (Some (memory_driver (map (\<lambda>key. (key, VStr ''test_data'')) keys)))"

text \<open>
  Layers for an overlay, as in the spec's read-through scenario: a bottom layer that
  holds \<open>cfg:port\<close>, top layers that hold another value or the sentinel for it, and
  a top layer without \<open>setItem\<close> (a read-only driver).
\<close>

definition bottom_layer :: "memory_data driver" where
  "bottom_layer = memory_driver [(''cfg:port'', VStr ''8080'')]"

definition top_layer :: "memory_data driver" where
  "top_layer = memory_driver [(''cfg:port'', VStr ''9090'')]"

definition removed_layer :: "memory_data driver" where
  "removed_layer = memory_driver [(''cfg:port'', VStr OVERLAY_REMOVED)]"

definition read_only_layer :: "memory_data driver" where
  "read_only_layer = memory\<lparr>drv_setItem := None, drv_setItemRaw := None\<rparr>"

text \<open>
  A file system for examples: an empty read-only medium. Nothing exists on it, reads
  find no file, and every write fails.
\<close>

definition empty_disk :: "unit node_fs" where
  "empty_disk =
     \<lparr> join = (\<lambda>base path. base @ ''/'' @ path),
       existsSync = (\<lambda>fs path. False),
       stat = (\<lambda>fs path. None),
       readFile = (\<lambda>fs path. Inr VNull),
       writeFile = (\<lambda>fs path v. Inl (Error ''EROFS: read-only file system'')),
       unlink = (\<lambda>fs path. Inl (Error ''EROFS: read-only file system'')),
       readdirRecursive = (\<lambda>fs path maxDepth. Inr []),
       rmRecursive = (\<lambda>fs path. Inl (Error ''EROFS: read-only file system'')) \<rparr>"

definition data_options :: fs_options where
  "data_options = \<lparr>fs_base = ''/data'', readOnly = False, noClear = False\<rparr>"

definition read_only_options :: fs_options where
  "read_only_options = \<lparr>fs_base = ''/data'', readOnly = True, noClear = False\<rparr>"

text \<open>
  The default storage after \<open>setItem("foo", "bar")\<close>, a server without hooks, and
  two GET requests for \<open>/foo\<close>.
\<close>

definition foo_ctx :: "memory_data storage_ctx" where
  "foo_ctx = createStorage memory (Some (memory_driver [(''foo'', VStr ''bar'')]))"

definition no_hooks :: server_options where
  "no_hooks = \<lparr>authorize = None, resolvePath = None\<rparr>"

definition get_foo :: h3_event where
  "get_foo = \<lparr>event_path = ''/foo'', accept = None\<rparr>"

definition get_foo_raw :: h3_event where
  "get_foo_raw = \<lparr>event_path = ''/foo'', accept = Some ''application/octet-stream''\<rparr>"

section \<open>Idempotence of key normalization\<close>

lemma split_query_fixed:
  "CHR ''?'' \<notin> set key \<Longrightarrow> split_query key = key"
  unfolding split_query_def by (induction key) auto

lemma split_query_no_mark: "CHR ''?'' \<notin> set (split_query key)"
  unfolding split_query_def by (induction key) auto

lemma replace_separators_fixed:
  "CHR ''/'' \<notin> set key \<Longrightarrow> CHR 0x5C \<notin> set key \<Longrightarrow> replace_separators key = key"
  unfolding replace_separators_def by (induction key) auto

lemma replace_separators_set:
  "set (replace_separators key) \<subseteq> insert CHR '':'' (set key - {CHR ''/'', CHR 0x5C})"
  unfolding replace_separators_def by auto

lemma collapse_colons_subset: "set (collapse_colons key) \<subseteq> set key"
  by (induction key rule: collapse_colons.induct) auto

lemma collapse_colons_hd:
  "key \<noteq> [] \<Longrightarrow> collapse_colons key \<noteq> [] \<and> hd (collapse_colons key) = hd key"
  by (induction key rule: collapse_colons.induct) auto

lemma collapse_colons_no_run: "no_colon_run (collapse_colons key)"
proof (induction key rule: collapse_colons.induct)
  case (3 a b cs)
  have ne: "collapse_colons (b # cs) \<noteq> []" and h: "hd (collapse_colons (b # cs)) = b"
    using collapse_colons_hd [of "b # cs"] by simp_all
  then obtain ds where ds: "collapse_colons (b # cs) = b # ds"
    by (cases "collapse_colons (b # cs)") auto
  with 3 show ?case by auto
qed simp_all

lemma collapse_colons_fixed: "no_colon_run key \<Longrightarrow> collapse_colons key = key"
  by (induction key rule: collapse_colons.induct) auto

lemma no_colon_run_tl: "no_colon_run (c # cs) \<Longrightarrow> no_colon_run cs"
  by (cases cs) auto

lemma no_colon_run_butlast: "no_colon_run key \<Longrightarrow> no_colon_run (butlast key)"
  by (induction key rule: no_colon_run.induct) (auto split: if_splits)

lemma no_colon_run_last:
  "no_colon_run key \<Longrightarrow> key \<noteq> [] \<Longrightarrow> last key = CHR '':'' \<Longrightarrow>
   butlast key \<noteq> [] \<Longrightarrow> last (butlast key) \<noteq> CHR '':''"
  by (induction key rule: no_colon_run.induct) (auto split: if_splits)

lemma trim_colons_subset: "set (trim_colons key) \<subseteq> set key"
  unfolding trim_colons_def trim_leading_colon_def trim_trailing_colon_def
  by (auto split: list.splits dest: in_set_butlastD)

lemma trim_leading_colon_no_run:
  "no_colon_run key \<Longrightarrow> no_colon_run (trim_leading_colon key)"
  unfolding trim_leading_colon_def
  by (auto split: list.splits dest: no_colon_run_tl)

lemma trim_trailing_colon_no_run:
  "no_colon_run key \<Longrightarrow> no_colon_run (trim_trailing_colon key)"
  unfolding trim_trailing_colon_def
  by (simp add: no_colon_run_butlast)

lemma trim_colons_no_run: "no_colon_run key \<Longrightarrow> no_colon_run (trim_colons key)"
  unfolding trim_colons_def
  by (rule trim_trailing_colon_no_run [OF trim_leading_colon_no_run])

lemma trim_leading_colon_hd:
  "no_colon_run key \<Longrightarrow> trim_leading_colon key \<noteq> [] \<Longrightarrow>
   hd (trim_leading_colon key) \<noteq> CHR '':''"
  unfolding trim_leading_colon_def
  by (cases key rule: no_colon_run.cases) (auto split: if_splits)

lemma trim_colons_ends:
  assumes "no_colon_run key" and "trim_colons key \<noteq> []"
  shows "hd (trim_colons key) \<noteq> CHR '':'' \<and> last (trim_colons key) \<noteq> CHR '':''"
proof -
  let ?l = "trim_leading_colon key"
  have run: "no_colon_run ?l"
    by (rule trim_leading_colon_no_run [OF assms(1)])
  have ne: "?l \<noteq> []"
    using assms(2) unfolding trim_colons_def trim_trailing_colon_def
    by (auto split: if_splits)
  have h: "hd ?l \<noteq> CHR '':''"
    using trim_leading_colon_hd [OF assms(1) ne] .
  show ?thesis
  proof (cases "last ?l = CHR '':''")
    case True
    then have eq: "trim_colons key = butlast ?l"
      using ne by (simp add: trim_colons_def trim_trailing_colon_def)
    with assms(2) have bne: "butlast ?l \<noteq> []" by simp
    have "last (butlast ?l) \<noteq> CHR '':''"
      using no_colon_run_last [OF run ne True bne] .
    moreover have "hd (butlast ?l) = hd ?l"
      using bne by (cases ?l) (auto split: if_splits)
    ultimately show ?thesis using h eq by simp
  next
    case False
    then have "trim_colons key = ?l"
      by (simp add: trim_colons_def trim_trailing_colon_def)
    with h False show ?thesis by simp
  qed
qed

lemma trim_colons_fixed:
  "key = [] \<or> (hd key \<noteq> CHR '':'' \<and> last key \<noteq> CHR '':'') \<Longrightarrow> trim_colons key = key"
  unfolding trim_colons_def trim_leading_colon_def trim_trailing_colon_def
  by (cases key) auto

lemma normalizeKey_normalized: "normalized (normalizeKey key)"
proof (cases "key = []")
  case True
  then show ?thesis by (simp add: normalizeKey_def normalized_def)
next
  case False
  let ?q = "split_query key"
  let ?r = "replace_separators ?q"
  let ?c = "collapse_colons ?r"
  have nk: "normalizeKey key = trim_colons ?c"
    using False by (simp add: normalizeKey_def)
  have sub: "set (trim_colons ?c) \<subseteq> set ?r"
    using trim_colons_subset [of ?c] collapse_colons_subset [of ?r] by blast
  have r_set: "set ?r \<subseteq> insert CHR '':'' (set ?q - {CHR ''/'', CHR 0x5C})"
    by (rule replace_separators_set)
  have q: "CHR ''?'' \<notin> set ?q" by (rule split_query_no_mark)
  have chars: "CHR ''?'' \<notin> set (trim_colons ?c) \<and> CHR ''/'' \<notin> set (trim_colons ?c)
      \<and> CHR 0x5C \<notin> set (trim_colons ?c)"
    using sub r_set q by auto
  have run: "no_colon_run (trim_colons ?c)"
    by (rule trim_colons_no_run [OF collapse_colons_no_run])
  have ends: "trim_colons ?c = [] \<or>
      (hd (trim_colons ?c) \<noteq> CHR '':'' \<and> last (trim_colons ?c) \<noteq> CHR '':'')"
    using trim_colons_ends [OF collapse_colons_no_run, of ?r] by blast
  show ?thesis
    unfolding nk normalized_def using chars run ends by simp
qed

lemma normalized_fixed:
  assumes "normalized key"
  shows "normalizeKey key = key"
proof (cases "key = []")
  case True
  then show ?thesis by (simp add: normalizeKey_def)
next
  case False
  have q: "split_query key = key"
    using assms by (simp add: normalized_def split_query_fixed)
  have r: "replace_separators key = key"
    using assms by (simp add: normalized_def replace_separators_fixed)
  have c: "collapse_colons key = key"
    using assms by (simp add: normalized_def collapse_colons_fixed)
  have t: "trim_colons key = key"
    using assms by (intro trim_colons_fixed) (simp add: normalized_def)
  show ?thesis
    using False by (simp add: normalizeKey_def q r c t)
qed

text \<open>
  C9. Key normalization is idempotent: normalizing a normalized key changes nothing.
  \<open>normalizeKey\<close> drops everything from the first query mark on, turns slash
  separators into colons, collapses runs of colons and trims a colon at either end.
\<close>

theorem normalizeKey_idempotent: "normalizeKey (normalizeKey k) = normalizeKey k"
  by (rule normalized_fixed [OF normalizeKey_normalized])

section \<open>Longest-prefix routing\<close>

lemma descending_sorted:
  "descending bases \<longleftrightarrow> sorted (map (\<lambda>b. - int (length b)) bases)"
  unfolding descending_def by (induction bases) auto

lemma sort_by_length_desc_descending: "descending (sort_by_length_desc bases)"
  by (simp add: descending_sorted sort_by_length_desc_def)

lemma sort_by_length_desc_set: "set (sort_by_length_desc bases) = set bases"
  by (simp add: sort_by_length_desc_def)

lemma sort_by_length_desc_distinct:
  "distinct (sort_by_length_desc bases) = distinct bases"
  by (simp add: sort_by_length_desc_def)

lemma descending_remove1: "descending bases \<Longrightarrow> descending (remove1 b bases)"
  unfolding descending_def by (induction bases) auto

lemma created_ok: "mount_table_ok (createStorage dflt options_driver)"
  by (simp add: mount_table_ok_def createStorage_def descending_def)

lemma mount_ok:
  assumes "mount_table_ok ctx" and "mount ctx base driver = Inr ctx'"
  shows "mount_table_ok ctx'"
proof -
  let ?b = "normalizeBaseKey base"
  from assms(2) obtain d where d: "driver = Some d" and free: "mounts ctx ?b = None"
    and ms: "mounts ctx' = (mounts ctx)(?b \<mapsto> d)"
    and mps: "mountpoints ctx' = sort_by_length_desc (mountpoints ctx @ [?b])"
    by (auto simp: mount_def Let_def split: if_splits option.splits)
  from free assms(1) have new: "?b \<notin> set (mountpoints ctx)"
    by (auto simp: mount_table_ok_def)
  show ?thesis
    using assms(1) new unfolding ms mps mount_table_ok_def
    by (simp add: sort_by_length_desc_descending sort_by_length_desc_set
        sort_by_length_desc_distinct)
qed

lemma unmount_ok:
  assumes "mount_table_ok ctx" and "unmount ctx base = Inr ctx'"
  shows "mount_table_ok ctx'"
proof -
  let ?b = "normalizeBaseKey base"
  from assms(2) have ne: "?b \<noteq> []"
    by (auto simp: unmount_def Let_def split: if_splits)
  show ?thesis
  proof (cases "mounts ctx ?b = None")
    case True
    with assms ne show ?thesis by (simp add: unmount_def Let_def)
  next
    case False
    with assms(1) have mem: "?b \<in> set (mountpoints ctx)"
      by (auto simp: mount_table_ok_def)
    from False ne assms(2)
    have mps: "mountpoints ctx' = remove1 ?b (mountpoints ctx)"
      and ms: "mounts ctx' = (mounts ctx)(?b := None)"
      using mem
      by (auto simp: unmount_def Let_def splice_indexOf_def
          split: if_splits option.splits unwatch_handle.splits)
    show ?thesis
      using assms(1) ne mem unfolding mount_table_ok_def mps ms
      by (auto simp: descending_remove1)
  qed
qed

lemma stopWatch_table [simp]:
  "mountpoints (stopWatch ctx) = mountpoints ctx" "mounts (stopWatch ctx) = mounts ctx"
  by (simp_all add: stopWatch_def)

lemma startWatch_table [simp]:
  "mountpoints (startWatch ctx) = mountpoints ctx" "mounts (startWatch ctx) = mounts ctx"
  by (simp_all add: startWatch_def)

lemma dispose_ok: "mount_table_ok (dispose dflt ctx)"
  by (simp add: mount_table_ok_def dispose_def descending_def)

lemma storage_watch_ok: "mount_table_ok ctx \<Longrightarrow> mount_table_ok (storage_watch ctx callback)"
  by (simp add: mount_table_ok_def storage_watch_def Let_def)

lemma unwatch_listener_ok:
  "mount_table_ok ctx \<Longrightarrow> mount_table_ok (unwatch_listener ctx callback)"
  by (simp add: mount_table_ok_def unwatch_listener_def Let_def)

lemma storage_unwatch_ok: "mount_table_ok ctx \<Longrightarrow> mount_table_ok (storage_unwatch ctx)"
  by (simp add: mount_table_ok_def storage_unwatch_def)

lemma put_state_ok:
  "mount_table_ok ctx \<Longrightarrow> mounts ctx base = Some d \<Longrightarrow> mount_table_ok (put_state ctx base d s)"
  by (auto simp: mount_table_ok_def put_state_def)

lemma reachable_ok: "reachable dflt ctx \<Longrightarrow> mount_table_ok ctx"
proof (induction rule: reachable.induct)
  case (created options_driver)
  show ?case by (rule created_ok)
next
  case (mounted ctx base driver ctx')
  then show ?case by (blast intro: mount_ok)
next
  case (unmounted ctx base ctx')
  then show ?case by (blast intro: unmount_ok)
next
  case (disposed ctx)
  show ?case by (rule dispose_ok)
next
  case (watched ctx callback)
  then show ?case by (simp add: storage_watch_ok)
next
  case (unwatched_one ctx callback)
  then show ?case by (simp add: unwatch_listener_ok)
next
  case (unwatched ctx)
  then show ?case by (simp add: storage_unwatch_ok)
next
  case (driver_step ctx base d s)
  then show ?case by (simp add: put_state_ok)
qed

text \<open>The first match of a scan over a descending list is a longest match.\<close>

lemma find_descending_longest:
  "descending bases \<Longrightarrow> find P bases = Some b \<Longrightarrow> c \<in> set bases \<Longrightarrow> P c \<Longrightarrow>
   length c \<le> length b"
  unfolding descending_def
  by (induction bases) (auto split: if_splits)

lemma find_root_present:
  "[] \<in> set bases \<Longrightarrow> \<exists>b. find (\<lambda>base. prefix base key) bases = Some b"
  by (cases "find (\<lambda>base. prefix base key) bases") (auto simp: find_None_iff)

lemma getMount_found:
  assumes "[] \<in> set (mountpoints ctx)"
  obtains b where "find (\<lambda>base. prefix base key) (mountpoints ctx) = Some b"
    and "getMount ctx key =
      \<lparr>mount_base = b, mount_relativeKey = drop (length b) key, mount_driver = mounts ctx b\<rparr>"
    and "b \<in> set (mountpoints ctx)" and "prefix b key"
proof -
  from find_root_present [OF assms] obtain b
    where b: "find (\<lambda>base. prefix base key) (mountpoints ctx) = Some b" by blast
  then have "b \<in> set (mountpoints ctx)" "prefix b key"
    by (auto simp: find_Some_iff)
  with b that show thesis by (simp add: getMount_def)
qed

lemmas key_eval = normalizeKey_def normalizeBaseKey_def split_query_def replace_separators_def
  trim_colons_def trim_leading_colon_def trim_trailing_colon_def Let_def

lemma cache_only_ctx_mounted:
  "mount (createStorage memory None) ''cache'' (Some memory) = Inr cache_only_ctx"
  by (simp add: mount_def createStorage_def cache_only_ctx_def key_eval sort_by_length_desc_def)

lemma cache_ctx_mounted: "mount cache_only_ctx ''cache:sub'' (Some memory) = Inr cache_ctx"
  by (simp add: mount_def cache_only_ctx_def cache_ctx_def key_eval sort_by_length_desc_def)

lemma cache_only_ctx_reachable: "reachable memory cache_only_ctx"
  by (rule reachable.mounted [OF reachable.created cache_only_ctx_mounted])

lemma cache_ctx_reachable: "reachable memory cache_ctx"
  by (rule reachable.mounted [OF cache_only_ctx_reachable cache_ctx_mounted])

text \<open>
  C1. In every reachable context (the root base is always in the mount table) and for
  every key, in particular every normalized key, \<open>getMount\<close> returns a mounted base
  that is a prefix of the key and at least as long as every other base of the table that
  is a prefix of the key, together with the driver mounted there and the key without
  that base. The list of mountpoints is in descending order of length in every reachable
  context, and so after every mount operation.
\<close>

theorem getMount_longest_prefix:
  assumes "reachable dflt ctx"
  shows "mount_base (getMount ctx k) \<in> set (mountpoints ctx)
    \<and> prefix (mount_base (getMount ctx k)) k
    \<and> (\<forall>b \<in> set (mountpoints ctx). prefix b k \<longrightarrow>
          length b \<le> length (mount_base (getMount ctx k))
          \<and> (length b = length (mount_base (getMount ctx k)) \<longrightarrow> b = mount_base (getMount ctx k)))
    \<and> mount_relativeKey (getMount ctx k) = drop (length (mount_base (getMount ctx k))) k
    \<and> mount_driver (getMount ctx k) = mounts ctx (mount_base (getMount ctx k))
    \<and> mount_driver (getMount ctx k) \<noteq> None
    \<and> [] \<in> set (mountpoints ctx)
    \<and> descending (mountpoints ctx)
    \<and> (\<forall>base driver ctx'. mount ctx base driver = Inr ctx' \<longrightarrow> descending (mountpoints ctx'))"
proof -
  have ok: "mount_table_ok ctx" by (rule reachable_ok [OF assms])
  then have root: "[] \<in> set (mountpoints ctx)" and desc: "descending (mountpoints ctx)"
    and dom: "dom (mounts ctx) = set (mountpoints ctx)"
    by (simp_all add: mount_table_ok_def)
  from getMount_found [OF root, of k] obtain b
    where found: "find (\<lambda>base. prefix base k) (mountpoints ctx) = Some b"
      and gm: "getMount ctx k =
        \<lparr>mount_base = b, mount_relativeKey = drop (length b) k, mount_driver = mounts ctx b\<rparr>"
      and mem: "b \<in> set (mountpoints ctx)" and pre: "prefix b k"
    by blast
  have longest: "length c \<le> length b \<and> (length c = length b \<longrightarrow> c = b)"
    if c: "c \<in> set (mountpoints ctx)" "prefix c k" for c
  proof -
    have le: "length c \<le> length b"
      using find_descending_longest [OF desc found c] .
    moreover have "c = b" if "length c = length b"
      using that c(2) pre by (auto simp: prefix_def)
    ultimately show ?thesis by blast
  qed
  have drv: "mounts ctx b \<noteq> None"
    using mem dom by blast
  have after: "descending (mountpoints ctx')" if "mount ctx base driver = Inr ctx'"
    for base driver ctx'
    using mount_ok [OF ok that] by (simp add: mount_table_ok_def)
  show ?thesis
    unfolding gm using mem pre longest drv root desc after by simp
qed

theorem getMount_longest_prefix_witness:
  "reachable memory cache_ctx
   \<and> mount_base (getMount cache_ctx ''cache:sub:foo'') = ''cache:sub:''
   \<and> prefix ''cache:'' ''cache:sub:foo''
   \<and> length ''cache:'' \<le> length (mount_base (getMount cache_ctx ''cache:sub:foo''))
   \<and> descending (mountpoints cache_ctx)"
proof -
  have r: "reachable memory cache_ctx" by (rule cache_ctx_reachable)
  have b: "mount_base (getMount cache_ctx ''cache:sub:foo'') = ''cache:sub:''"
    by (simp add: getMount_def cache_ctx_def)
  have m: "''cache:'' \<in> set (mountpoints cache_ctx)"
    by (simp add: cache_ctx_def)
  have p: "prefix ''cache:'' ''cache:sub:foo''" by simp
  from getMount_longest_prefix [OF r, of "''cache:sub:foo''"] m p
  have "length ''cache:'' \<le> length (mount_base (getMount cache_ctx ''cache:sub:foo''))"
    and "descending (mountpoints cache_ctx)"
    by blast+
  with r b p show ?thesis by blast
qed





section \<open>Mounting shadows, unmounting restores\<close>

lemma mount_result:
  assumes "mount ctx b (Some d) = Inr ctx'"
  shows "normalizeBaseKey b \<noteq> []" and "mounts ctx (normalizeBaseKey b) = None"
    and "mounts ctx' = (mounts ctx)(normalizeBaseKey b \<mapsto> d)"
    and "mountpoints ctx' = sort_by_length_desc (mountpoints ctx @ [normalizeBaseKey b])"
    and "watching ctx' = watching ctx"
    and "watching ctx \<Longrightarrow> unwatch ctx' (normalizeBaseKey b) = Some (unwatch_of d)"
  using assms by (auto simp: mount_def Let_def split: if_splits)

text \<open>
  \<open>unmount\<close> on a mounted base: it throws, and changes nothing, when the engine is
  watching and the stored unwatch function returns nothing; otherwise it removes the
  mount and its mountpoint.
\<close>

lemma unmount_without_promise:
  assumes "normalizeBaseKey b \<noteq> []" and "mounts ctx (normalizeBaseKey b) \<noteq> None"
    and "watching ctx" and "unwatch ctx (normalizeBaseKey b) = Some ReturnsNothing"
  shows "unmount ctx b = Inl (TypeError ''Cannot read properties of undefined (reading catch)'')"
  using assms by (simp add: unmount_def Let_def)


text \<open>
  The default storage with a subscriber, and a memory driver (no \<open>watch\<close>) mounted at
  \<open>mnt\<close>: unmounting it throws.
\<close>

lemma unmount_watching_memory_throws:
  "\<exists>ctx'. mount (storage_watch (createStorage memory None) 7) ''mnt'' (Some memory) = Inr ctx'
     \<and> unmount ctx' ''mnt''
         = Inl (TypeError ''Cannot read properties of undefined (reading catch)'')"
proof -
  let ?w = "storage_watch (createStorage memory None) 7"
  have b: "normalizeBaseKey ''mnt'' = ''mnt:''" by (simp add: key_eval)
  have w: "watching ?w" "mounts ?w ''mnt:'' = None"
    by (simp_all add: storage_watch_def startWatch_def createStorage_def Let_def)
  then obtain ctx' where m: "mount ?w ''mnt'' (Some memory) = Inr ctx'"
    by (simp add: mount_def Let_def b)
  note mr = mount_result [OF m]
  have "unmount ctx' ''mnt''
      = Inl (TypeError ''Cannot read properties of undefined (reading catch)'')"
  proof (rule unmount_without_promise)
    show "normalizeBaseKey ''mnt'' \<noteq> []" by (simp add: b)
    show "mounts ctx' (normalizeBaseKey ''mnt'') \<noteq> None" by (simp add: mr(3))
    show "watching ctx'" by (simp add: mr(5) w(1))
    show "unwatch ctx' (normalizeBaseKey ''mnt'') = Some ReturnsNothing"
      using mr(6) [OF w(1)] by (simp add: unwatch_of_def memory_def memory_driver_def)
  qed
  with m show ?thesis by blast
qed






section \<open>Watch events and depth-limited enumeration on concrete storages\<close>

lemma watch_callback:
  "(case watch d (onChange ctx) base of None \<Rightarrow> [] | Some cb \<Rightarrow> cb event key)
   = (if drv_watch d then onChange ctx event key else [])"
  by (simp add: watch_def)

lemma driver_reports_mounted:
  "mounts ctx base = Some d \<Longrightarrow>
   driver_reports ctx base event key
   = (if base \<in> dom (unwatch ctx) \<and> drv_watch d then onChange ctx event key else [])"
  by (simp add: driver_reports_def watch_callback)

text \<open>
  Whatever a mounted driver reports, the listeners receive the normalized reported key;
  the base of the mount does not enter the result.
\<close>

lemma driver_reports_key:
  assumes "(listener, event', key') \<in> set (driver_reports ctx base event key)"
  shows "event' = event \<and> key' = normalizeKey key \<and> listener \<in> set (watchListeners ctx)"
proof (cases "mounts ctx base")
  case None
  with assms show ?thesis by (simp add: driver_reports_def)
next
  case (Some d)
  with assms have "(listener, event', key') \<in> set (onChange ctx event key)"
    by (auto simp: driver_reports_mounted split: if_splits)
  then show ?thesis
    by (cases "watching ctx") (auto simp: onChange_def)
qed

text \<open>
  C2 fails on the code. The driver mounted at \<open>mnt:\<close> reports \<open>update\<close> of its key
  \<open>etc:conf\<close> while listener 7 is subscribed. The listener is called once, with the
  key \<open>etc:conf\<close>: the helper \<open>watch\<close> hands \<open>onChange\<close> itself to the driver and
  drops the base, and \<open>onChange\<close> only normalizes the key. The claim, and the test
  "watch", expect \<open>mnt:etc:conf\<close>.
\<close>

theorem watch_event_key_not_prefixed:
  "mount (createStorage memory None) ''/mnt'' (Some watchable) = Inr mnt_ctx
   \<and> watchListeners mnt_watching_ctx = [7]
   \<and> watching mnt_watching_ctx
   \<and> driver_reports mnt_watching_ctx ''mnt:'' Update ''etc:conf'' = [(7, Update, ''etc:conf'')]
   \<and> driver_reports mnt_watching_ctx ''mnt:'' Update ''etc:conf''
        \<noteq> [(7, Update, ''mnt:'' @ ''etc:conf'')]"
proof -
  have m: "mount (createStorage memory None) ''/mnt'' (Some watchable) = Inr mnt_ctx"
    by (simp add: mount_def createStorage_def mnt_ctx_def key_eval sort_by_length_desc_def)
  have w: "watchListeners mnt_watching_ctx = [7]" "watching mnt_watching_ctx"
    "unwatch mnt_watching_ctx ''mnt:'' = Some ReturnsPromise"
    by (simp_all add: mnt_watching_ctx_def storage_watch_def startWatch_def mnt_ctx_def Let_def
        unwatch_of_def watchable_def)
  have n: "normalizeKey ''etc:conf'' = ''etc:conf''" by (simp add: key_eval)
  have d: "mounts mnt_watching_ctx ''mnt:'' = Some watchable"
    by (simp add: mnt_watching_ctx_def storage_watch_def startWatch_def mnt_ctx_def Let_def)
  have u: "''mnt:'' \<in> dom (unwatch mnt_watching_ctx)"
    using w(3) by blast
  have r: "driver_reports mnt_watching_ctx ''mnt:'' Update ''etc:conf'' = [(7, Update, ''etc:conf'')]"
    unfolding driver_reports_mounted [OF d]
    by (simp add: u w onChange_def watchable_def n)
  show ?thesis using m r w by simp
qed

lemma holding_set:
  "normalizeKey key = key \<Longrightarrow>
   storage_setItem stringify (holding keys) key (VStr ''test_data'')
   = Inr (createStorage memory (Some (memory_driver
        (AList.update key (VStr ''test_data'') (map (\<lambda>key. (key, VStr ''test_data'')) keys)))))"
  by (simp add: storage_setItem_def holding_def createStorage_def getMount_def put_state_def
      memory_driver_def memory_def)

lemma holding_snoc:
  "key \<notin> set keys \<Longrightarrow>
   AList.update key v (map (\<lambda>key. (key, v)) keys) = map (\<lambda>key. (key, v)) (keys @ [key])"
  by (induction keys) auto

lemma holding_set_new:
  "normalizeKey key = key \<Longrightarrow> key \<notin> set keys \<Longrightarrow>
   storage_setItem stringify (holding keys) key (VStr ''test_data'') = Inr (holding (keys @ [key]))"
proof -
  assume n: "normalizeKey key = key" and new: "key \<notin> set keys"
  show ?thesis
    unfolding holding_set [OF n] holding_snoc [OF new] by (simp add: holding_def)
qed

lemma join_root:
  "joinKeys [[], ''a''] = ''a''" "joinKeys [[], ''a:b''] = ''a:b''"
  "joinKeys [[], ''a:b:c''] = ''a:b:c''" "joinKeys [[], ''a:b:c:d''] = ''a:b:c:d''"
  by (simp_all add: joinKeys_def key_eval)

text \<open>
  C3 fails on the code. The keys \<open>a\<close>, \<open>a:b\<close>, \<open>a:b:c\<close>, \<open>a:b:c:d\<close> are set
  through the engine on the default storage; \<open>getKeys("", {maxDepth: 1})\<close> then
  returns \<open>a\<close> alone, and so does \<open>getKeys("")\<close> without a depth: the engine
  passes the base, here the empty string, where \<open>filterKeyByDepth\<close> expects the
  depth, and the empty string compares as 0. The claim expects \<open>a\<close> and \<open>a:b\<close>,
  which is what \<open>filterKeyByDepth\<close> keeps when it is given the depth 1.
\<close>

theorem getKeys_depth_uses_base:
  "storage_setItem stringify (holding []) ''a'' (VStr ''test_data'') = Inr (holding [''a''])
   \<and> storage_setItem stringify (holding [''a'']) ''a:b'' (VStr ''test_data'')
       = Inr (holding [''a'', ''a:b''])
   \<and> storage_setItem stringify (holding [''a'', ''a:b'']) ''a:b:c'' (VStr ''test_data'')
       = Inr (holding [''a'', ''a:b'', ''a:b:c''])
   \<and> storage_setItem stringify (holding [''a'', ''a:b'', ''a:b:c'']) ''a:b:c:d'' (VStr ''test_data'')
       = Inr (holding [''a'', ''a:b'', ''a:b:c'', ''a:b:c:d''])
   \<and> storage_getKeys (holding [''a'', ''a:b'', ''a:b:c'', ''a:b:c:d'']) [] (Some 1) = Inr [''a'']
   \<and> storage_getKeys (holding [''a'', ''a:b'', ''a:b:c'', ''a:b:c:d'']) [] None = Inr [''a'']
   \<and> filter (\<lambda>key. filterKeyByDepth key (JSNumber 1)) [''a'', ''a:b'', ''a:b:c'', ''a:b:c:d'']
       = [''a'', ''a:b'']"
proof -
  have s1: "storage_setItem stringify (holding []) ''a'' (VStr ''test_data'') = Inr (holding [''a''])"
    using holding_set_new [of "''a''" "[]"] by (simp add: key_eval)
  have s2: "storage_setItem stringify (holding [''a'']) ''a:b'' (VStr ''test_data'')
       = Inr (holding [''a'', ''a:b''])"
    using holding_set_new [of "''a:b''" "[''a'']"] by (simp add: key_eval)
  have s3: "storage_setItem stringify (holding [''a'', ''a:b'']) ''a:b:c'' (VStr ''test_data'')
       = Inr (holding [''a'', ''a:b'', ''a:b:c''])"
    using holding_set_new [of "''a:b:c''" "[''a'', ''a:b'']"] by (simp add: key_eval)
  have s4: "storage_setItem stringify (holding [''a'', ''a:b'', ''a:b:c'']) ''a:b:c:d''
         (VStr ''test_data'') = Inr (holding [''a'', ''a:b'', ''a:b:c'', ''a:b:c:d''])"
    using holding_set_new [of "''a:b:c:d''" "[''a'', ''a:b'', ''a:b:c'']"] by (simp add: key_eval)
  have base: "normalizeBaseKey [] = []" by (simp add: key_eval)
  have zero: "string_to_number [] = Finite 0 0"
    by (simp add: string_to_number_def js_trim_def nondecimal_radix_def)
  have g: "storage_getKeys (holding [''a'', ''a:b'', ''a:b:c'', ''a:b:c:d'']) [] maxDepth = Inr [''a'']"
    for maxDepth
    unfolding storage_getKeys_def base
    by (simp add: holding_def createStorage_def getMounts_def keys_of_mount_def
        memory_driver_def join_root filterKeyByDepth_def zero filterKeyByBase_def)
  have f: "filter (\<lambda>key. filterKeyByDepth key (JSNumber 1)) [''a'', ''a:b'', ''a:b:c'', ''a:b:c:d'']
       = [''a'', ''a:b'']"
    by (simp add: filterKeyByDepth_def)
  show ?thesis using s1 s2 s3 s4 g f by blast
qed

section \<open>Overlay: reads\<close>

lemma overlay_getItem_skip:
  "\<forall>l \<in> set uppers. drv_getItem l (drv_state l) K = Inr VNull \<Longrightarrow>
   overlay_getItem (uppers @ rest) K = overlay_getItem rest K"
  by (induction uppers) (auto simp: OVERLAY_REMOVED_def)

text \<open>
  C4. For an overlay with any list of layers and any key \<open>K\<close>: a top layer with a
  value that is neither \<open>null\<close> nor the sentinel decides the read; a top layer with
  the sentinel makes the read \<open>null\<close>, whatever the lower layers hold; when every
  layer uppers some layer holds \<open>null\<close>, a value of that layer that is neither
  \<open>null\<close> nor the sentinel is returned, and a sentinel there again gives \<open>null\<close>;
  when all layers hold \<open>null\<close> the read is \<open>null\<close>.
\<close>

theorem overlay_getItem_layers:
  "(drv_getItem topLayer (drv_state topLayer) K = Inr v \<and> v \<noteq> VNull \<and> v \<noteq> VStr OVERLAY_REMOVED
      \<longrightarrow> overlay_getItem (topLayer # lower) K = Inr v)
   \<and> (drv_getItem topLayer (drv_state topLayer) K = Inr (VStr OVERLAY_REMOVED)
      \<longrightarrow> overlay_getItem (topLayer # lower) K = Inr VNull)
   \<and> ((\<forall>l \<in> set uppers. drv_getItem l (drv_state l) K = Inr VNull)
        \<and> drv_getItem layer (drv_state layer) K = Inr w \<and> w \<noteq> VNull \<and> w \<noteq> VStr OVERLAY_REMOVED
      \<longrightarrow> overlay_getItem (uppers @ layer # lowers) K = Inr w)
   \<and> ((\<forall>l \<in> set uppers. drv_getItem l (drv_state l) K = Inr VNull)
        \<and> drv_getItem layer (drv_state layer) K = Inr (VStr OVERLAY_REMOVED)
      \<longrightarrow> overlay_getItem (uppers @ layer # lowers) K = Inr VNull)
   \<and> ((\<forall>l \<in> set layers. drv_getItem l (drv_state l) K = Inr VNull)
      \<longrightarrow> overlay_getItem layers K = Inr VNull)"
proof (intro conjI impI)
  assume "drv_getItem topLayer (drv_state topLayer) K = Inr v \<and> v \<noteq> VNull \<and> v \<noteq> VStr OVERLAY_REMOVED"
  then show "overlay_getItem (topLayer # lower) K = Inr v" by simp
next
  assume "drv_getItem topLayer (drv_state topLayer) K = Inr (VStr OVERLAY_REMOVED)"
  then show "overlay_getItem (topLayer # lower) K = Inr VNull" by simp
next
  assume a: "(\<forall>l \<in> set uppers. drv_getItem l (drv_state l) K = Inr VNull)
        \<and> drv_getItem layer (drv_state layer) K = Inr w \<and> w \<noteq> VNull \<and> w \<noteq> VStr OVERLAY_REMOVED"
  then have "overlay_getItem (uppers @ layer # lowers) K = overlay_getItem (layer # lowers) K"
    by (intro overlay_getItem_skip) simp
  with a show "overlay_getItem (uppers @ layer # lowers) K = Inr w" by simp
next
  assume a: "(\<forall>l \<in> set uppers. drv_getItem l (drv_state l) K = Inr VNull)
        \<and> drv_getItem layer (drv_state layer) K = Inr (VStr OVERLAY_REMOVED)"
  then have "overlay_getItem (uppers @ layer # lowers) K = overlay_getItem (layer # lowers) K"
    by (intro overlay_getItem_skip) simp
  with a show "overlay_getItem (uppers @ layer # lowers) K = Inr VNull" by simp
next
  assume "\<forall>l \<in> set layers. drv_getItem l (drv_state l) K = Inr VNull"
  then show "overlay_getItem layers K = Inr VNull"
    using overlay_getItem_skip [of layers K "[]"] by simp
qed

lemma layer_reads:
  "drv_getItem top_layer (drv_state top_layer) ''cfg:port'' = Inr (VStr ''9090'')"
  "drv_getItem bottom_layer (drv_state bottom_layer) ''cfg:port'' = Inr (VStr ''8080'')"
  "drv_getItem removed_layer (drv_state removed_layer) ''cfg:port'' = Inr (VStr OVERLAY_REMOVED)"
  "drv_getItem memory (drv_state memory) ''cfg:port'' = Inr VNull"
  by (simp_all add: top_layer_def bottom_layer_def removed_layer_def memory_def
      memory_driver_def memory_get_def OVERLAY_REMOVED_def)

theorem overlay_getItem_layers_witness:
  "overlay_getItem [top_layer, bottom_layer] ''cfg:port'' = Inr (VStr ''9090'')
   \<and> overlay_getItem [removed_layer, bottom_layer] ''cfg:port'' = Inr VNull
   \<and> overlay_getItem [memory, bottom_layer] ''cfg:port'' = Inr (VStr ''8080'')
   \<and> overlay_getItem [memory, removed_layer, bottom_layer] ''cfg:port'' = Inr VNull
   \<and> overlay_getItem [memory, memory] ''cfg:port'' = Inr VNull"
proof -
  have tomb: "VStr ''9090'' \<noteq> VStr OVERLAY_REMOVED" "VStr ''8080'' \<noteq> VStr OVERLAY_REMOVED"
    by (simp_all add: OVERLAY_REMOVED_def)
  have nulls: "\<forall>l \<in> set [memory]. drv_getItem l (drv_state l) ''cfg:port'' = Inr VNull"
    "\<forall>l \<in> set [memory, memory]. drv_getItem l (drv_state l) ''cfg:port'' = Inr VNull"
    by (simp_all add: layer_reads)
  note spec = overlay_getItem_layers [where K = "''cfg:port''"]
  have 1: "overlay_getItem [top_layer, bottom_layer] ''cfg:port'' = Inr (VStr ''9090'')"
    using spec [of top_layer "VStr ''9090''" "[bottom_layer]"] layer_reads tomb by simp
  have 2: "overlay_getItem [removed_layer, bottom_layer] ''cfg:port'' = Inr VNull"
    using spec [of removed_layer _ "[bottom_layer]"] layer_reads by simp
  have 3: "overlay_getItem [memory, bottom_layer] ''cfg:port'' = Inr (VStr ''8080'')"
    using spec [of _ _ _ "[memory]" bottom_layer "VStr ''8080''" "[]"] layer_reads tomb nulls
    by simp
  have 4: "overlay_getItem [memory, removed_layer, bottom_layer] ''cfg:port'' = Inr VNull"
    using spec [of _ _ _ "[memory]" removed_layer _ "[bottom_layer]"] layer_reads nulls
    by simp
  have 5: "overlay_getItem [memory, memory] ''cfg:port'' = Inr VNull"
    using spec [of _ _ _ _ _ _ _ "[memory, memory]"] nulls by simp
  show ?thesis using 1 2 3 4 5 by blast
qed

section \<open>Overlay: removal and the sentinel\<close>

lemma all_results_Inr:
  "all_results rs = Inr xs \<Longrightarrow> rs = map Inr xs"
  by (induction rs arbitrary: xs) (auto split: sum.splits)

lemma overlay_key_exists_Some:
  "overlay_key_exists (topLayer # lower) c = Inr (Some key) \<Longrightarrow>
   c = key \<and> drv_getItem topLayer (drv_state topLayer) key \<noteq> Inr (VStr OVERLAY_REMOVED)"
  by (auto simp: overlay_key_exists_def split: sum.splits if_splits)

lemma overlay_getKeys_not_removed:
  assumes keys: "overlay_getKeys (topLayer # lower) base maxDepth = Inr keys"
    and removed: "drv_getItem topLayer (drv_state topLayer) k = Inr (VStr OVERLAY_REMOVED)"
  shows "k \<notin> set keys"
proof
  assume k: "k \<in> set keys"
  from keys obtain nested existing
    where ex: "all_results (map (overlay_key_exists (topLayer # lower)) (unique (concat nested)))
        = Inr existing"
      and res: "keys = concat (map (\<lambda>r. case r of None \<Rightarrow> []
                                        | Some key \<Rightarrow> if key = [] then [] else [key]) existing)"
    by (auto simp: overlay_getKeys_def split: sum.splits)
  from k res have "Some k \<in> set existing"
    by (auto split: option.splits if_splits)
  moreover from all_results_Inr [OF ex]
  have "map (overlay_key_exists (topLayer # lower)) (unique (concat nested)) = map Inr existing" .
  ultimately have "Inr (Some k) \<in> set (map (overlay_key_exists (topLayer # lower))
      (unique (concat nested)))"
    by simp
  then obtain c where "overlay_key_exists (topLayer # lower) c = Inr (Some k)"
    by auto
  from overlay_key_exists_Some [OF this] removed show False by simp
qed

lemma overlay_removeItem_frame:
  "overlay_removeItem layers k = Inr layers' \<Longrightarrow>
   tl layers' = tl layers \<and> length layers' = length layers"
  by (auto simp: overlay_removeItem_def split: list.splits option.splits sum.splits)

text \<open>
  C5 as stated fails for an overlay whose top layer has no \<open>setItem\<close>: \<open>removeItem\<close>
  then does nothing, and the key is still read from the lower layer and still listed.
\<close>

theorem overlay_removeItem_counterexample:
  "overlay_removeItem [read_only_layer, bottom_layer] ''cfg:port''
     = Inr [read_only_layer, bottom_layer]
   \<and> overlay_getItem [read_only_layer, bottom_layer] ''cfg:port'' = Inr (VStr ''8080'')
   \<and> overlay_getKeys [read_only_layer, bottom_layer] [] None = Inr [''cfg:port'']"
proof -
  have n: "drivers_normalizeKey ''cfg:port'' = ''cfg:port''"
    by (simp add: drivers_normalizeKey_def trim_separators_def is_separator_def)
  have 1: "overlay_removeItem [read_only_layer, bottom_layer] ''cfg:port''
     = Inr [read_only_layer, bottom_layer]"
    by (simp add: overlay_removeItem_def read_only_layer_def)
  have 2: "overlay_getItem [read_only_layer, bottom_layer] ''cfg:port'' = Inr (VStr ''8080'')"
    by (simp add: read_only_layer_def bottom_layer_def memory_def memory_driver_def
        memory_get_def OVERLAY_REMOVED_def)
  have 3: "overlay_getKeys [read_only_layer, bottom_layer] [] None = Inr [''cfg:port'']"
    by (simp add: overlay_getKeys_def overlay_layer_keys_def overlay_key_exists_def
        read_only_layer_def bottom_layer_def memory_def memory_driver_def memory_get_def
        OVERLAY_REMOVED_def n)
  show ?thesis using 1 2 3 by blast
qed

text \<open>
  C5, amended. For every overlay and every key \<open>k\<close>, \<open>removeItem(k)\<close> leaves every
  lower layer as it was (the result has the same layers below the top, so they still hold
  their previous values). When the top layer has \<open>setItem\<close>, accepts the sentinel and
  reads it back, the sentinel is written to the top layer only, and afterwards
  \<open>getItem(k)\<close> returns \<open>null\<close> and no key list returned by \<open>getKeys\<close> contains
  \<open>k\<close>.
\<close>

theorem overlay_removeItem_masks:
  "(overlay_removeItem layers k = Inr layers'
      \<longrightarrow> tl layers' = tl layers \<and> length layers' = length layers)
   \<and> (drv_setItem topLayer = Some set_fn
        \<and> set_fn (drv_state topLayer) k (VStr OVERLAY_REMOVED) = Inr s
        \<and> drv_getItem topLayer s k = Inr (VStr OVERLAY_REMOVED)
      \<longrightarrow> overlay_removeItem (topLayer # lower) k = Inr (topLayer\<lparr>drv_state := s\<rparr> # lower)
        \<and> overlay_getItem (topLayer\<lparr>drv_state := s\<rparr> # lower) k = Inr VNull
        \<and> (\<forall>keys. overlay_getKeys (topLayer\<lparr>drv_state := s\<rparr> # lower) base maxDepth = Inr keys
              \<longrightarrow> k \<notin> set keys))"
proof (intro conjI impI allI)
  assume "overlay_removeItem layers k = Inr layers'"
  from overlay_removeItem_frame [OF this]
  show "tl layers' = tl layers" and "length layers' = length layers" by simp_all
next
  assume a: "drv_setItem topLayer = Some set_fn
        \<and> set_fn (drv_state topLayer) k (VStr OVERLAY_REMOVED) = Inr s
        \<and> drv_getItem topLayer s k = Inr (VStr OVERLAY_REMOVED)"
  then show "overlay_removeItem (topLayer # lower) k = Inr (topLayer\<lparr>drv_state := s\<rparr> # lower)"
    by (simp add: overlay_removeItem_def)
  from a show "overlay_getItem (topLayer\<lparr>drv_state := s\<rparr> # lower) k = Inr VNull"
    by simp
  fix keys
  assume "overlay_getKeys (topLayer\<lparr>drv_state := s\<rparr> # lower) base maxDepth = Inr keys"
  from overlay_getKeys_not_removed [OF this] a show "k \<notin> set keys" by simp
qed

theorem overlay_removeItem_masks_witness:
  "overlay_removeItem [top_layer, bottom_layer] ''cfg:port'' = Inr [removed_layer, bottom_layer]
   \<and> tl [removed_layer, bottom_layer] = [bottom_layer]
   \<and> overlay_getItem [removed_layer, bottom_layer] ''cfg:port'' = Inr VNull
   \<and> overlay_getKeys [removed_layer, bottom_layer] [] None = Inr []
   \<and> ''cfg:port'' \<notin> set []
   \<and> drv_getItem bottom_layer (drv_state bottom_layer) ''cfg:port'' = Inr (VStr ''8080'')"
proof -
  have n: "drivers_normalizeKey ''cfg:port'' = ''cfg:port''"
    by (simp add: drivers_normalizeKey_def trim_separators_def is_separator_def)
  have st: "top_layer\<lparr>drv_state := [(''cfg:port'', VStr OVERLAY_REMOVED)]\<rparr> = removed_layer"
    by (simp add: top_layer_def removed_layer_def memory_driver_def)
  have h: "drv_setItem top_layer = Some (\<lambda>d key v. Inr (AList.update key v d))
      \<and> (\<lambda>d key v. Inr (AList.update key v d)) (drv_state top_layer) ''cfg:port''
            (VStr OVERLAY_REMOVED) = Inr [(''cfg:port'', VStr OVERLAY_REMOVED)]
      \<and> drv_getItem top_layer [(''cfg:port'', VStr OVERLAY_REMOVED)] ''cfg:port''
          = Inr (VStr OVERLAY_REMOVED)"
    by (simp add: top_layer_def memory_driver_def memory_get_def)
  have g: "overlay_getKeys [removed_layer, bottom_layer] [] None = Inr []"
    by (simp add: overlay_getKeys_def overlay_layer_keys_def overlay_key_exists_def
        removed_layer_def bottom_layer_def memory_driver_def memory_get_def n)
  from overlay_removeItem_masks [of "[top_layer, bottom_layer]" "''cfg:port''"
      "[removed_layer, bottom_layer]" top_layer "\<lambda>d key v. Inr (AList.update key v d)"
      "[(''cfg:port'', VStr OVERLAY_REMOVED)]" "[bottom_layer]" "[]" None] h
  have "overlay_removeItem [top_layer, bottom_layer] ''cfg:port'' = Inr [removed_layer, bottom_layer]"
    and "overlay_getItem [removed_layer, bottom_layer] ''cfg:port'' = Inr VNull"
    and "''cfg:port'' \<notin> set []"
    unfolding st by simp_all
  with g layer_reads(2) show ?thesis by simp
qed

text \<open>
  C6 as stated fails: the overlay's \<open>setItem\<close> has no check of the value. Setting
  the sentinel on an overlay over one memory layer succeeds and stores it.
\<close>

theorem overlay_setItem_sentinel_counterexample:
  "overlay_setItem [memory] ''k'' (VStr ''__OVERLAY_REMOVED__'')
     = Inr [memory_driver [(''k'', VStr ''__OVERLAY_REMOVED__'')]]"
  by (simp add: overlay_setItem_def memory_def memory_driver_def)

text \<open>
  C6, amended. The overlay's \<open>setItem\<close> does not reject the sentinel: it forwards it
  to the top layer like any other value, so setting the sentinel is the same as
  \<open>removeItem\<close>. Over a memory top layer the call succeeds, the sentinel is stored,
  and the key then reads as \<open>null\<close>.
\<close>

theorem overlay_setItem_sentinel:
  "overlay_setItem layers k (VStr OVERLAY_REMOVED) = overlay_removeItem layers k
   \<and> overlay_setItem (memory_driver data # lower) k (VStr OVERLAY_REMOVED)
       = Inr (memory_driver (AList.update k (VStr OVERLAY_REMOVED) data) # lower)
   \<and> overlay_getItem (memory_driver (AList.update k (VStr OVERLAY_REMOVED) data) # lower) k
       = Inr VNull"
proof -
  have 1: "overlay_setItem layers k (VStr OVERLAY_REMOVED) = overlay_removeItem layers k"
    by (simp add: overlay_setItem_def overlay_removeItem_def)
  have 2: "overlay_setItem (memory_driver data # lower) k (VStr OVERLAY_REMOVED)
       = Inr (memory_driver (AList.update k (VStr OVERLAY_REMOVED) data) # lower)"
    by (simp add: overlay_setItem_def memory_driver_def)
  have 3: "overlay_getItem (memory_driver (AList.update k (VStr OVERLAY_REMOVED) data) # lower) k
       = Inr VNull"
    by (simp add: memory_driver_def memory_get_def update_conv')
  show ?thesis using 1 2 3 by blast
qed

section \<open>Filesystem driver: traversal defence\<close>

lemma has_traversal_Nil [simp]: "\<not> has_traversal []"
  by (simp add: has_traversal_def)

lemma has_traversal_Cons:
  "has_traversal (c # cs) \<longleftrightarrow> prefix ''..:'' (c # cs) \<or> c # cs = ''..'' \<or> has_traversal cs"
proof
  assume "has_traversal (c # cs)"
  then consider u v where "c # cs = u @ ''..:'' @ v" | "suffix ''..'' (c # cs)"
    by (auto simp: has_traversal_def)
  then show "prefix ''..:'' (c # cs) \<or> c # cs = ''..'' \<or> has_traversal cs"
  proof cases
    case 1
    show ?thesis
    proof (cases u)
      case Nil
      with 1 have "prefix ''..:'' (c # cs)" by (simp add: prefix_def)
      then show ?thesis by blast
    next
      case (Cons a u')
      with 1 have "cs = u' @ ''..:'' @ v" by simp
      then have "has_traversal cs" unfolding has_traversal_def by blast
      then show ?thesis by blast
    qed
  next
    case 2
    then have "c # cs = ''..'' \<or> suffix ''..'' cs" by (auto simp: suffix_Cons)
    then show ?thesis unfolding has_traversal_def by blast
  qed
next
  assume "prefix ''..:'' (c # cs) \<or> c # cs = ''..'' \<or> has_traversal cs"
  then consider "prefix ''..:'' (c # cs)" | "c # cs = ''..''" | "has_traversal cs" by blast
  then show "has_traversal (c # cs)"
  proof cases
    case 1
    then obtain v where "c # cs = ''..:'' @ v" by (auto simp: prefix_def)
    then have "c # cs = [] @ ''..:'' @ v" by simp
    then show ?thesis unfolding has_traversal_def by blast
  next
    case 2
    then have "suffix ''..'' (c # cs)" by simp
    then show ?thesis unfolding has_traversal_def by blast
  next
    case 3
    then consider u v where "cs = u @ ''..:'' @ v" | "suffix ''..'' cs"
      by (auto simp: has_traversal_def)
    then show ?thesis
    proof cases
      case 1
      then have "c # cs = (c # u) @ ''..:'' @ v" by simp
      then show ?thesis unfolding has_traversal_def by blast
    next
      case 2
      then have "suffix ''..'' (c # cs)" by (simp add: suffix_Cons)
      then show ?thesis unfolding has_traversal_def by blast
    qed
  qed
qed

lemma PATH_TRAVERSE_RE_test_iff: "PATH_TRAVERSE_RE_test key \<longleftrightarrow> has_traversal key"
proof (induction key)
  case Nil
  show ?case by simp
next
  case (Cons c cs)
  show ?case
    unfolding has_traversal_Cons [of c cs] using Cons.IH by simp
qed

lemma r_resolution:
  "r io opts key =
     (if has_traversal key then Inl (InvalidKey key)
      else Inr (join io (fs_base opts) (colons_to_slashes key)))"
  by (simp add: r_def PATH_TRAVERSE_RE_test_iff)

text \<open>
  C7 as stated fails for a read-only driver: \<open>setItem\<close> returns before the key is
  looked at, so a key that ends in two dots raises nothing.
\<close>

theorem fs_read_only_counterexample:
  "has_traversal ''..''
   \<and> fs_setItem empty_disk read_only_options () ''..'' (VStr ''x'') = Inr ()
   \<and> fs_removeItem empty_disk read_only_options () ''..'' = Inr ()"
proof -
  have "suffix ''..'' ''..''" by simp
  then have "has_traversal ''..''" unfolding has_traversal_def by blast
  then show ?thesis
    by (simp add: fs_setItem_def fs_removeItem_def read_only_options_def)
qed

text \<open>
  C7, amended. Wherever the filesystem driver resolves a key to a path, it raises
  \<open>InvalidKey\<close> iff the key contains \<open>..:\<close> or ends in \<open>..\<close>, and then the outcome
  does not depend on the file system: nothing is read or written. The key is resolved in
  \<open>hasItem\<close>, \<open>getItem\<close>, \<open>getItemRaw\<close> and \<open>getMeta\<close>, and in \<open>setItem\<close>,
  \<open>setItemRaw\<close> and \<open>removeItem\<close> unless the driver is read-only; a read-only
  driver returns from these without looking at the key. Through the storage engine,
  \<open>get("../etc/passwd")\<close> is normalized to \<open>..:etc:passwd\<close> and fails with
  \<open>InvalidKey\<close>, while \<open>get("s1:te..st..js")\<close> goes on to read the file
  \<open>s1/te..st..js\<close> under the base directory.
\<close>

theorem fs_key_resolution:
  "(isl (r io opts key) \<longleftrightarrow> has_traversal key)
   \<and> r io opts key =
       (if has_traversal key then Inl (InvalidKey key)
        else Inr (join io (fs_base opts) (colons_to_slashes key)))
   \<and> fs_hasItem io opts fs key =
       (if has_traversal key then Inl (InvalidKey key)
        else Inr (existsSync io fs (join io (fs_base opts) (colons_to_slashes key))))
   \<and> fs_getItem io opts fs key =
       (if has_traversal key then Inl (InvalidKey key)
        else readFile io fs (join io (fs_base opts) (colons_to_slashes key)))
   \<and> drv_getItemRaw (fs_driver io opts fs) = Some (fs_getItem io opts)
   \<and> fs_getMeta io opts fs key =
       (if has_traversal key then Inl (InvalidKey key)
        else Inr (Some \<lparr>mtime = stat io fs (join io (fs_base opts) (colons_to_slashes key)),
                        ttl = None\<rparr>))
   \<and> fs_setItem io opts fs key v =
       (if readOnly opts then Inr fs
        else if has_traversal key then Inl (InvalidKey key)
        else writeFile io fs (join io (fs_base opts) (colons_to_slashes key)) v)
   \<and> drv_setItemRaw (fs_driver io opts fs) = Some (fs_setItem io opts)
   \<and> fs_removeItem io opts fs key =
       (if readOnly opts then Inr fs
        else if has_traversal key then Inl (InvalidKey key)
        else unlink io fs (join io (fs_base opts) (colons_to_slashes key)))
   \<and> storage_getItem destr (createStorage dflt (Some (fs_driver io opts fs))) ''../etc/passwd''
       = Inl (InvalidKey ''..:etc:passwd'')
   \<and> storage_getItem destr (createStorage dflt (Some (fs_driver io opts fs))) ''s1:te..st..js''
       = (case readFile io fs (join io (fs_base opts) ''s1/te..st..js'') of
            Inl e \<Rightarrow> Inl e | Inr v \<Rightarrow> Inr (destr v))"
proof -
  have n1: "normalizeKey ''../etc/passwd'' = ''..:etc:passwd''"
    by (simp add: key_eval)
  have n2: "normalizeKey ''s1:te..st..js'' = ''s1:te..st..js''"
    by (simp add: key_eval)
  have t1: "PATH_TRAVERSE_RE_test ''..:etc:passwd''" by simp
  have t2: "\<not> PATH_TRAVERSE_RE_test ''s1:te..st..js''" by simp
  have c2: "colons_to_slashes ''s1:te..st..js'' = ''s1/te..st..js''"
    by (simp add: colons_to_slashes_def)
  have root: "getMount (createStorage dflt (Some (fs_driver io opts fs))) k =
      \<lparr>mount_base = [], mount_relativeKey = k, mount_driver = Some (fs_driver io opts fs)\<rparr>"
    for k
    by (simp add: getMount_def createStorage_def)
  have g1: "storage_getItem destr (createStorage dflt (Some (fs_driver io opts fs)))
      ''../etc/passwd'' = Inl (InvalidKey ''..:etc:passwd'')"
    unfolding storage_getItem_def n1 root
    by (simp add: fs_driver_def fs_getItem_def r_def t1)
  have g2: "storage_getItem destr (createStorage dflt (Some (fs_driver io opts fs)))
      ''s1:te..st..js''
       = (case readFile io fs (join io (fs_base opts) ''s1/te..st..js'') of
            Inl e \<Rightarrow> Inl e | Inr v \<Rightarrow> Inr (destr v))"
    unfolding storage_getItem_def n2 root
    by (simp add: fs_driver_def fs_getItem_def r_def t2 c2)
  have ops: "isl (r io opts key) \<longleftrightarrow> has_traversal key"
    by (simp add: r_resolution)
  have has: "fs_hasItem io opts fs key =
       (if has_traversal key then Inl (InvalidKey key)
        else Inr (existsSync io fs (join io (fs_base opts) (colons_to_slashes key))))"
    by (simp add: fs_hasItem_def r_resolution)
  have get: "fs_getItem io opts fs key =
       (if has_traversal key then Inl (InvalidKey key)
        else readFile io fs (join io (fs_base opts) (colons_to_slashes key)))"
    by (simp add: fs_getItem_def r_resolution)
  have raw: "drv_getItemRaw (fs_driver io opts fs) = Some (fs_getItem io opts)"
    by (simp add: fs_driver_def)
  have meta: "fs_getMeta io opts fs key =
       (if has_traversal key then Inl (InvalidKey key)
        else Inr (Some \<lparr>mtime = stat io fs (join io (fs_base opts) (colons_to_slashes key)),
                        ttl = None\<rparr>))"
    by (simp add: fs_getMeta_def r_resolution)
  have set: "fs_setItem io opts fs key v =
       (if readOnly opts then Inr fs
        else if has_traversal key then Inl (InvalidKey key)
        else writeFile io fs (join io (fs_base opts) (colons_to_slashes key)) v)"
    by (simp add: fs_setItem_def r_resolution)
  have set_raw: "drv_setItemRaw (fs_driver io opts fs) = Some (fs_setItem io opts)"
    by (simp add: fs_driver_def)
  have remove: "fs_removeItem io opts fs key =
       (if readOnly opts then Inr fs
        else if has_traversal key then Inl (InvalidKey key)
        else unlink io fs (join io (fs_base opts) (colons_to_slashes key)))"
    by (simp add: fs_removeItem_def r_resolution)
  show ?thesis
    by (intro conjI) (fact ops r_resolution has get raw meta set set_raw remove g1 g2)+
qed

section \<open>HTTP GET on a storage whose driver has no metadata\<close>

text \<open>
  C8 fails on the code. On the default storage (memory driver, no \<open>getMeta\<close>) holding
  \<open>foo\<close>, \<open>GET /foo\<close> finds the value, then \<open>storage.getMeta\<close> resolves to
  \<open>null\<close> and \<open>setMetaHeaders\<close> reads \<open>meta.mtime\<close> of it: the request fails
  with a \<open>TypeError\<close> instead of returning the value, in raw mode and in text mode.
  A missing key still gives 404.
\<close>

theorem http_get_null_meta:
  "storage_setItem (rt_stringify rt) (createStorage memory None) ''foo'' (VStr ''bar'') = Inr foo_ctx
   \<and> storage_getItemRaw (rt_deserializeRaw rt) foo_ctx ''foo'' = Inr (VStr ''bar'')
   \<and> storage_getMeta foo_ctx ''foo'' = Inr None
   \<and> createH3StorageHandler_get rt foo_ctx no_hooks get_foo_raw
       = Inl (TypeError ''Cannot read properties of null (reading mtime)'')
   \<and> createH3StorageHandler_get (rt\<lparr>rt_destr := \<lambda>v. v\<rparr>) foo_ctx no_hooks get_foo
       = Inl (TypeError ''Cannot read properties of null (reading mtime)'')
   \<and> createH3StorageHandler_get rt foo_ctx no_hooks \<lparr>event_path = ''/baz'', accept = Some ''application/octet-stream''\<rparr>
       = Inl (HTTPError 404 ''KV value not found'')"
proof -
  have n: "normalizeKey ''foo'' = ''foo''" "normalizeKey ''/foo'' = ''foo''"
    "normalizeKey ''/baz'' = ''baz''" "normalizeKey ''baz'' = ''baz''"
    by (simp_all add: key_eval)
  have root: "getMount foo_ctx k =
      \<lparr>mount_base = [], mount_relativeKey = k,
        mount_driver = Some (memory_driver [(''foo'', VStr ''bar'')])\<rparr>" for k
    by (simp add: getMount_def foo_ctx_def createStorage_def)
  have s: "storage_setItem (rt_stringify rt) (createStorage memory None) ''foo'' (VStr ''bar'')
      = Inr foo_ctx"
    unfolding storage_setItem_def n
    by (simp add: getMount_def createStorage_def foo_ctx_def put_state_def memory_def
        memory_driver_def)
  have raw: "storage_getItemRaw d foo_ctx ''foo'' = Inr (VStr ''bar'')" for d
    unfolding storage_getItemRaw_def n root
    by (simp add: memory_driver_def memory_get_def)
  have raw_missing: "storage_getItemRaw d foo_ctx ''baz'' = Inr VNull" for d
    unfolding storage_getItemRaw_def n root
    by (simp add: memory_driver_def memory_get_def)
  have item: "storage_getItem (\<lambda>v. v) foo_ctx ''foo'' = Inr (VStr ''bar'')"
    unfolding storage_getItem_def n root
    by (simp add: memory_driver_def memory_get_def)
  have meta: "storage_getMeta foo_ctx ''foo'' = Inr None"
    unfolding storage_getMeta_def n root
    by (simp add: memory_driver_def)
  have h1: "createH3StorageHandler_get rt foo_ctx no_hooks get_foo_raw
       = Inl (TypeError ''Cannot read properties of null (reading mtime)'')"
    by (simp add: createH3StorageHandler_get_def no_hooks_def get_foo_raw_def n raw meta setMetaHeaders_def)
  have h2: "createH3StorageHandler_get (rt\<lparr>rt_destr := \<lambda>v. v\<rparr>) foo_ctx no_hooks get_foo
       = Inl (TypeError ''Cannot read properties of null (reading mtime)'')"
    by (simp add: createH3StorageHandler_get_def no_hooks_def get_foo_def n item meta setMetaHeaders_def)
  have h3: "createH3StorageHandler_get rt foo_ctx no_hooks
        \<lparr>event_path = ''/baz'', accept = Some ''application/octet-stream''\<rparr>
       = Inl (HTTPError 404 ''KV value not found'')"
    by (simp add: createH3StorageHandler_get_def no_hooks_def n raw_missing)
  show ?thesis using s raw meta h1 h2 h3 by blast
qed

end
